theory Spec2Isabelle
  imports Main "HOL-Library.Word"
begin

unbundle bit_operations_syntax

section \<open>Byte arrays and strings\<close>

text \<open>
  A \<open>QByteArray\<close> is a list of bytes; Isabelle's \<open>char\<close> is exactly one byte, so a
  byte array is a \<open>string\<close>. \<open>(quint8) ba[i]\<close> is \<open>of_char\<close>, and appending the
  byte \<open>n\<close> is appending \<open>char_of n\<close>. A \<open>QString\<close> is represented by its UTF-8
  encoding, so \<open>toUtf8\<close> and \<open>fromUtf8\<close> do nothing, and a \<open>QString\<close> is empty
  exactly when its encoding is.
\<close>

type_synonym QByteArray = string
type_synonym QString = string

definition toUtf8 :: "QString \<Rightarrow> QByteArray" where
  "toUtf8 s = s"

definition fromUtf8 :: "QByteArray \<Rightarrow> QString" where
  "fromUtf8 b = b"

text \<open>
  \<open>QByteArray::indexOf(pat)\<close>: the index of the first occurrence of \<open>pat\<close>, or \<open>-1\<close>.
\<close>

definition ba_startsWith :: "QByteArray \<Rightarrow> QByteArray \<Rightarrow> bool" where
  "ba_startsWith ba pat = (take (length pat) ba = pat)"

fun ba_indexOf :: "QByteArray \<Rightarrow> QByteArray \<Rightarrow> int" where
  "ba_indexOf [] pat = (if pat = [] then 0 else -1)"
| "ba_indexOf (c # cs) pat =
     (if ba_startsWith (c # cs) pat then 0
      else (let r = ba_indexOf cs pat in if r < 0 then -1 else r + 1))"

definition ba_contains :: "QByteArray \<Rightarrow> QByteArray \<Rightarrow> bool" where
  "ba_contains ba pat = (ba_indexOf ba pat \<noteq> -1)"

text \<open>
  \<open>QByteArray::mid(pos, -1)\<close>, \<open>QByteArray::left(len)\<close> and
  \<open>QByteArray::remove(0, len)\<close> with Qt's treatment of positions and lengths that are
  negative or beyond the end: \<open>mid\<close> from a negative position is the whole array,
  \<open>left\<close> of a negative length is empty, \<open>remove\<close> of a length that is not positive
  changes nothing and of a length beyond the end removes everything.
\<close>

definition ba_mid :: "QByteArray \<Rightarrow> int \<Rightarrow> QByteArray" where
  "ba_mid ba pos =
     (if pos > int (length ba) then []
      else if pos < 0 then ba
      else drop (nat pos) ba)"

definition ba_left :: "QByteArray \<Rightarrow> int \<Rightarrow> QByteArray" where
  "ba_left ba len =
     (if len \<ge> int (length ba) then ba
      else if len < 0 then []
      else take (nat len) ba)"

definition ba_remove0 :: "QByteArray \<Rightarrow> int \<Rightarrow> QByteArray" where
  "ba_remove0 ba len =
     (if len \<le> 0 \<or> ba = [] then ba
      else if len \<ge> int (length ba) then []
      else drop (nat len) ba)"

text \<open>
  \<open>QByteArray::replace(pos, len, after)\<close> for a position inside the array.
\<close>

definition ba_replace :: "nat \<Rightarrow> nat \<Rightarrow> QByteArray \<Rightarrow> QByteArray \<Rightarrow> QByteArray" where
  "ba_replace pos len after ba = take pos ba @ after @ drop (pos + len) ba"

section \<open>The control panel and its surroundings\<close>

text \<open>
  The signals of the class, in the order they are emitted.
\<close>

datatype signal =
    PrintLn QString
  | CurrentTimeChanged
  | CsvFileNameChanged
  | SimulationEnabledChanged
  | SimulationActivatedChanged
  | ContainerTelemetryEnabledChanged

text \<open>
  A \<open>QFile\<close> member: whether it is open, its name, and the data handed to
  \<open>QFile::write\<close> so far (the code never looks at what \<open>write\<close> returns).
\<close>

record QFile =
  f_isOpen :: bool
  f_fileName :: QString
  f_written :: "QByteArray list"

text \<open>
  The members of \<open>CanSat::ControlPanel\<close>, followed by what the class does to the
  world around it: the connection state of \<open>SerialStudio::Plugin\<close>, the frames given to
  \<open>Plugin::write\<close>, the signals emitted, the message boxes shown, the pending
  \<open>QTimer::singleShot\<close> calls for \<open>sendSimulatedData\<close> (their delays in ms), the
  arguments \<open>processFrame\<close> has been called with, and the number of \<open>createCsv\<close>
  calls made.
\<close>

record ControlPanel =
  m_row :: int
  m_file :: QFile
  m_tempFile :: QFile
  m_currentTime :: QString
  m_dataBuffer :: QByteArray
  m_csvData :: "QString list list"
  m_payloadCsv :: QFile
  m_containerCsv :: QFile
  m_simulationEnabled :: bool
  m_simulationActivated :: bool
  m_containerTelemetryEnabled :: bool
  isConnected :: bool
  pluginWritten :: "QByteArray list"
  emitted :: "signal list"
  messageBoxes :: "(QString \<times> QString) list"
  singleShots :: "int list"
  processFrameCalls :: "QByteArray list"
  createCsvCalls :: nat

text \<open>
  What the file system, the clock and the socket answer. The \<open>n\<close>-th call of
  \<open>createCsv\<close> computes the path \<open>csvPath n\<close> from the clock and the home directory and
  its \<open>QFile::open\<close> succeeds iff \<open>csvOpens n\<close>; \<open>csvErrorString\<close> is
  \<open>QFile::errorString()\<close>; the \<open>n\<close>-th \<open>Plugin::write\<close> is accepted whole iff
  \<open>socketAccepts n\<close>; \<open>readToList\<close> is the CSV reader of the qtcsv library and
  \<open>tempPath\<close> is \<open>QDir::tempPath()\<close>.
\<close>

record env =
  csvPath :: "nat \<Rightarrow> QString"
  csvOpens :: "nat \<Rightarrow> bool"
  csvErrorString :: QString
  socketAccepts :: "nat \<Rightarrow> bool"
  readToList :: "QByteArray \<Rightarrow> QString list list"
  tempPath :: QString

definition closedFile :: QFile where
  "closedFile = \<lparr>f_isOpen = False, f_fileName = [], f_written = []\<rparr>"

text \<open>The constructor: the state of a fresh control panel, not connected.\<close>

definition initial :: ControlPanel where
  "initial =
     \<lparr>m_row = 0, m_file = closedFile, m_tempFile = closedFile, m_currentTime = [],
      m_dataBuffer = [], m_csvData = [], m_payloadCsv = closedFile,
      m_containerCsv = closedFile, m_simulationEnabled = False,
      m_simulationActivated = False, m_containerTelemetryEnabled = False,
      isConnected = False, pluginWritten = [], emitted = [], messageBoxes = [],
      singleShots = [], processFrameCalls = [], createCsvCalls = 0\<rparr>"

definition simulationEnabled :: "ControlPanel \<Rightarrow> bool" where
  "simulationEnabled st = m_simulationEnabled st"

definition simulationActivated :: "ControlPanel \<Rightarrow> bool" where
  "simulationActivated st = (simulationEnabled st \<and> m_simulationActivated st)"

definition containerTelemetryEnabled :: "ControlPanel \<Rightarrow> bool" where
  "containerTelemetryEnabled st = m_containerTelemetryEnabled st"

definition simulationCsvLoaded :: "ControlPanel \<Rightarrow> bool" where
  "simulationCsvLoaded st = f_isOpen (m_file st)"

text \<open>\<open>QFileInfo::fileName()\<close>: the path without its directories.\<close>

definition fileInfo_fileName :: "QString \<Rightarrow> QString" where
  "fileInfo_fileName path = rev (takeWhile (\<lambda>c. c \<noteq> CHR ''/'') (rev path))"

definition csvFileName :: "ControlPanel \<Rightarrow> QString" where
  "csvFileName st =
     (if simulationCsvLoaded st then fileInfo_fileName (f_fileName (m_file st))
      else ''No CSV file selected'')"

definition printLn :: "QString \<Rightarrow> ControlPanel \<Rightarrow> ControlPanel" where
  "printLn s st = st\<lparr>emitted := emitted st @ [PrintLn s]\<rparr>"

definition emit :: "signal \<Rightarrow> ControlPanel \<Rightarrow> ControlPanel" where
  "emit s st = st\<lparr>emitted := emitted st @ [s]\<rparr>"

definition showMessageBox :: "QString \<Rightarrow> QString \<Rightarrow> ControlPanel \<Rightarrow> ControlPanel" where
  "showMessageBox title msg st = st\<lparr>messageBoxes := messageBoxes st @ [(title, msg)]\<rparr>"

definition singleShot :: "int \<Rightarrow> ControlPanel \<Rightarrow> ControlPanel" where
  "singleShot ms st = st\<lparr>singleShots := singleShots st @ [ms]\<rparr>"

text \<open>\<open>SerialStudio::Plugin::write\<close>: the bytes go to the socket.\<close>

definition Plugin_write :: "env \<Rightarrow> ControlPanel \<Rightarrow> QByteArray \<Rightarrow> bool \<times> ControlPanel" where
  "Plugin_write e st data =
     (socketAccepts e (length (pluginWritten st)),
      st\<lparr>pluginWritten := pluginWritten st @ [data]\<rparr>)"

section \<open>The frame encoder\<close>

text \<open>
  The summing loop of \<open>ControlPanel::sendData\<close>: \<open>sum\<close> is a \<open>quint16\<close>, it wraps.
\<close>

fun sum16 :: "16 word \<Rightarrow> QByteArray \<Rightarrow> 16 word" where
  "sum16 s [] = s"
| "sum16 s (c # cs) = sum16 (s + of_char c) cs"

text \<open>
  The frame \<open>ControlPanel::sendData\<close> builds for \<open>data\<close>: the checksum and the length
  are computed first, then the first two bytes of the 64-bit address are replaced.
\<close>

definition apiFrame :: "QString \<Rightarrow> QByteArray" where
  "apiFrame data =
     (let address64bit = map char_of [0x00, 0x13, 0xA2, 0x00, 0x41, 0xB1, 0x8C, 0x8D :: nat];
          address16bit = map char_of [0xFF, 0xFE :: nat];
          frame = map char_of [0x10, 0x00, 0x00 :: nat] @ address64bit @ address16bit
                  @ map char_of [0x00, 0x00 :: nat] @ toUtf8 data;
          sum = sum16 0 frame;
          crc = (ucast (0xFF - (sum AND 0xFF)) :: 8 word);
          len = (word_of_nat (length frame) - 1 :: 16 word);
          msbAddress = map char_of [0x7D, 0x33 :: nat];
          frame' = ba_replace 3 2 msbAddress frame
      in [char_of (0x7E :: nat)]
         @ [char_of (uint (word_of_int (drop_bit 8 (uint len)) :: 8 word) AND 0xFF)]
         @ [char_of (uint (word_of_int (drop_bit 0 (uint len)) :: 8 word) AND 0xFF)]
         @ frame'
         @ [char_of (unat crc)])"

definition sendData :: "env \<Rightarrow> ControlPanel \<Rightarrow> QString \<Rightarrow> bool \<times> ControlPanel" where
  "sendData e st data =
     (if data = [] then (False, st)
      else if \<not> isConnected st then (False, st)
      else Plugin_write e (printLn (''  [TX]'' @ [CHR 0x09] @ data) st) (apiFrame data))"

text \<open>
  \<open>SerialStudio::Communicator::sendData\<close>: the address already holds \<open>0x7D, 0x33\<close>,
  \<open>sum\<close> is an \<open>int\<close>, and the length written is \<open>length - 6\<close>, computed in \<open>int\<close>
  from the \<open>quint16\<close> length (\<open>>>\<close> on a negative \<open>int\<close> is the arithmetic shift).
  The result is the frame handed to the socket, \<open>None\<close> when nothing is written.
\<close>

fun sum32 :: "32 word \<Rightarrow> QByteArray \<Rightarrow> 32 word" where
  "sum32 s [] = s"
| "sum32 s (c # cs) = sum32 (s + of_char c) cs"

definition Communicator_apiFrame :: "QString \<Rightarrow> QByteArray" where
  "Communicator_apiFrame data =
     (let address64bit = map char_of [0x7D, 0x33, 0xA2, 0x00, 0x41, 0xB1, 0x8C, 0x8D :: nat];
          address16bit = map char_of [0xFF, 0xFE :: nat];
          frame = map char_of [0x10, 0x00, 0x00 :: nat] @ address64bit @ address16bit
                  @ map char_of [0x00, 0x00 :: nat] @ toUtf8 data;
          sum = sum32 0 frame;
          crc = (ucast (0xFF - (sum AND 0xFF)) :: 8 word);
          len = (word_of_nat (length frame) :: 16 word)
      in [char_of (0x7E :: nat)]
         @ [char_of (uint (word_of_int (drop_bit 8 (uint len - 6)) :: 8 word) AND 0xFF)]
         @ [char_of (uint (word_of_int (drop_bit 0 (uint len - 6)) :: 8 word) AND 0xFF)]
         @ frame
         @ [char_of (unat crc)])"

definition Communicator_sendData :: "bool \<Rightarrow> QString \<Rightarrow> QByteArray option" where
  "Communicator_sendData connectedToSerialStudio data =
     (if data = [] then None
      else if \<not> connectedToSerialStudio then None
      else Some (Communicator_apiFrame data))"

section \<open>Session logs and the frame router\<close>

definition QFile_write :: "QFile \<Rightarrow> QByteArray \<Rightarrow> QFile" where
  "QFile_write f data = f\<lparr>f_written := f_written f @ [data]\<rparr>"

text \<open>
  \<open>createCsv\<close>: announces the new file, closes the log, renames it and opens it for
  writing; the result is what \<open>QFile::open\<close> returned.
\<close>

definition createCsv :: "env \<Rightarrow> ControlPanel \<Rightarrow> bool \<Rightarrow> bool \<times> ControlPanel" where
  "createCsv e st createContainerCsv =
     (let n = createCsvCalls st;
          st1 = printLn (''[INFO]'' @ [CHR 0x09] @ ''Creating new CSV file at '' @ csvPath e n)
                  (st\<lparr>createCsvCalls := Suc n\<rparr>)
      in if createContainerCsv
         then (csvOpens e n,
               st1\<lparr>m_containerCsv :=
                     (m_containerCsv st1)\<lparr>f_isOpen := csvOpens e n, f_fileName := csvPath e n\<rparr>\<rparr>)
         else (csvOpens e n,
               st1\<lparr>m_payloadCsv :=
                     (m_payloadCsv st1)\<lparr>f_isOpen := csvOpens e n, f_fileName := csvPath e n\<rparr>\<rparr>))"

definition processFrame :: "env \<Rightarrow> ControlPanel \<Rightarrow> QByteArray \<Rightarrow> ControlPanel" where
  "processFrame e st0 frame =
     (let st = st0\<lparr>processFrameCalls := processFrameCalls st0 @ [frame]\<rparr> in
      if frame = [] then st
      else if ba_startsWith frame (toUtf8 ''6026'') then
        (let (opened, st1) =
               (if \<not> f_isOpen (m_payloadCsv st) then createCsv e st False else (True, st))
         in if \<not> opened
            then showMessageBox ''Error while creating payload CSV'' (csvErrorString e) st1
            else printLn (''  [RX]'' @ [CHR 0x09] @ fromUtf8 frame)
                   (st1\<lparr>m_payloadCsv :=
                          QFile_write (QFile_write (m_payloadCsv st1) frame) [CHR 0x0A]\<rparr>))
      else if ba_startsWith frame (toUtf8 ''1026'') then
        (let (opened, st1) =
               (if \<not> f_isOpen (m_containerCsv st) then createCsv e st True else (True, st))
         in if \<not> opened
            then showMessageBox ''Error while creating container CSV'' (csvErrorString e) st1
            else printLn (''  [RX]'' @ [CHR 0x09] @ fromUtf8 frame)
                   (st1\<lparr>m_containerCsv :=
                          QFile_write (QFile_write (m_containerCsv st1) frame) [CHR 0x0A]\<rparr>))
      else printLn (''  [RX]'' @ [CHR 0x09] @ fromUtf8 frame) st)"

section \<open>The stream reassembler\<close>

definition start :: QByteArray where
  "start = toUtf8 ''/*''"

definition finish :: QByteArray where
  "finish = toUtf8 ''*/''"

lemma ba_indexOf_ge: "- 1 \<le> ba_indexOf ba pat"
  by (induction ba) (simp_all add: Let_def)

lemma ba_contains_nonempty: "ba_contains ba pat \<Longrightarrow> pat \<noteq> [] \<Longrightarrow> ba \<noteq> []"
  by (cases ba) (simp_all add: ba_contains_def)

lemma ba_contains_indexOf: "ba_contains ba pat \<Longrightarrow> 0 \<le> ba_indexOf ba pat"
  using ba_indexOf_ge [of ba pat] by (simp add: ba_contains_def)

lemma length_ba_mid_le: "length (ba_mid ba pos) \<le> length ba"
  by (simp add: ba_mid_def)

lemma length_ba_mid_less: "0 < pos \<Longrightarrow> ba \<noteq> [] \<Longrightarrow> length (ba_mid ba pos) < length ba"
  by (simp add: ba_mid_def)

text \<open>
  The \<open>while\<close> loop of \<open>onDataReceived\<close>, on the local variables \<open>cursor\<close> and
  \<open>bytes\<close>; each round hands one frame to \<open>processFrame\<close>.
\<close>

function onDataReceived_loop ::
  "env \<Rightarrow> ControlPanel \<Rightarrow> QByteArray \<Rightarrow> int \<Rightarrow> ControlPanel \<times> int" where
  "onDataReceived_loop e st cursor bytes =
     (if ba_contains cursor start \<and> ba_contains cursor finish then
        (let sIndex = ba_indexOf cursor start;
             cursor1 = ba_mid cursor (sIndex + int (length start));
             bytes1 = bytes + (sIndex + int (length start));
             fIndex = ba_indexOf cursor1 finish;
             frame = ba_left cursor1 fIndex;
             st1 = processFrame e st frame;
             cursor2 = ba_mid cursor1 fIndex;
             bytes2 = bytes1 + (fIndex + int (length finish))
         in onDataReceived_loop e st1 cursor2 bytes2)
      else (st, bytes))"
  by pat_completeness auto
termination
proof (relation "measure (\<lambda>(e, st, cursor, bytes). length cursor)")
  show "wf (measure (\<lambda>(e, st, cursor, bytes). length cursor))"
    by simp
next
  fix e :: env and st :: ControlPanel and cursor :: QByteArray and bytes :: int
    and sIndex cursor1 bytes1 fIndex frame st1 cursor2 bytes2
  assume c: "ba_contains cursor start \<and> ba_contains cursor finish"
    and s: "sIndex = ba_indexOf cursor start"
    and c1: "cursor1 = ba_mid cursor (sIndex + int (length start))"
    and c2: "cursor2 = ba_mid cursor1 fIndex"
  from c have "cursor \<noteq> []"
    using ba_contains_nonempty [of cursor start] by (simp add: start_def toUtf8_def)
  moreover from c s have "0 < sIndex + int (length start)"
    using ba_contains_indexOf [of cursor start] by (simp add: start_def toUtf8_def)
  ultimately have "length cursor1 < length cursor"
    unfolding c1 by (rule length_ba_mid_less [rotated])
  moreover have "length cursor2 \<le> length cursor1"
    unfolding c2 by (rule length_ba_mid_le)
  ultimately show "((e, st1, cursor2, bytes2), (e, st, cursor, bytes))
      \<in> measure (\<lambda>(e, st, cursor, bytes). length cursor)"
    by simp
qed

declare onDataReceived_loop.simps [simp del]

text \<open>
  \<open>onDataReceived\<close> up to and including \<open>m_dataBuffer.remove(0, bytes)\<close>.
\<close>

definition onDataReceived_parse :: "env \<Rightarrow> ControlPanel \<Rightarrow> QByteArray \<Rightarrow> ControlPanel" where
  "onDataReceived_parse e st data =
     (let st1 = st\<lparr>m_dataBuffer := m_dataBuffer st @ data\<rparr>;
          (st2, bytes) = onDataReceived_loop e st1 (m_dataBuffer st1) 0
      in st2\<lparr>m_dataBuffer := ba_remove0 (m_dataBuffer st2) bytes\<rparr>)"

text \<open>
  The whole of \<open>onDataReceived\<close>: the parse, then the size check that clears the buffer.
\<close>

definition onDataReceived :: "env \<Rightarrow> ControlPanel \<Rightarrow> QByteArray \<Rightarrow> ControlPanel" where
  "onDataReceived e st data =
     (let st3 = onDataReceived_parse e st data
      in if int (length (m_dataBuffer st3)) > 1024 * 10 * 10
         then st3\<lparr>m_dataBuffer := []\<rparr>
         else st3)"

section \<open>Commands and the simulation feeder\<close>

definition updateContainerTime :: "env \<Rightarrow> ControlPanel \<Rightarrow> QString \<Rightarrow> ControlPanel" where
  \<comment> \<open>\<open>time\<close> is the clock's \<open>hh:mm:ss\<close>\<close>
  "updateContainerTime e st time =
     (if isConnected st then snd (sendData e st (''CMD,1026,ST,'' @ time @ '';'')) else st)"

definition updateCurrentTime :: "ControlPanel \<Rightarrow> QString \<Rightarrow> ControlPanel" where
  \<comment> \<open>\<open>time\<close> is the clock's \<open>hh:mm:ss:zzz\<close>\<close>
  "updateCurrentTime st time = emit CurrentTimeChanged (st\<lparr>m_currentTime := time\<rparr>)"

definition setSimulationMode :: "env \<Rightarrow> ControlPanel \<Rightarrow> bool \<Rightarrow> ControlPanel" where
  "setSimulationMode e st enabled =
     (if isConnected st then
        (let st1 = st\<lparr>m_simulationActivated := False, m_simulationEnabled := enabled\<rparr>;
             st2 = emit SimulationActivatedChanged (emit SimulationEnabledChanged st1);
             cmd = (if simulationEnabled st2 then ''ENABLE'' else ''DISABLE'')
         in snd (sendData e st2 (''CMD,1026,SIM,'' @ cmd @ '';'')))
      else st)"

definition setSimulationActivated :: "env \<Rightarrow> ControlPanel \<Rightarrow> bool \<Rightarrow> ControlPanel" where
  "setSimulationActivated e st activated =
     (if isConnected st \<and> simulationEnabled st then
        (if activated \<and> csvFileName st \<noteq> [] then
           (let st1 = emit SimulationActivatedChanged (st\<lparr>m_simulationActivated := True\<rparr>);
                st2 = snd (sendData e st1 ''CMD,1026,SIM,ACTIVATE;'');
                st3 = printLn (''[INFO]'' @ [CHR 0x09] @ ''Wating 5 seconds before sending data...'') st2
            in singleShot 5000 st3)
         else setSimulationMode e st False)
      else st)"

definition setContainerTelemetryEnabled :: "env \<Rightarrow> ControlPanel \<Rightarrow> bool \<Rightarrow> ControlPanel" where
  "setContainerTelemetryEnabled e st enabled =
     (if isConnected st then
        (let st1 = emit ContainerTelemetryEnabledChanged (st\<lparr>m_containerTelemetryEnabled := enabled\<rparr>);
             cmd = (if enabled then ''ON'' else ''OFF'')
         in snd (sendData e st1 (''CMD,1026,CX,'' @ cmd @ '';'')))
      else st)"

text \<open>The decimal digits of \<open>QString::arg(int)\<close>.\<close>

fun digits :: "nat \<Rightarrow> nat \<Rightarrow> QString" where
  "digits 0 n = []"
| "digits (Suc fuel) n =
     (if n < 10 then [char_of (48 + n)] else digits fuel (n div 10) @ [char_of (48 + n mod 10)])"

definition arg_int :: "int \<Rightarrow> QString" where
  "arg_int i = (if i < 0 then ''-'' @ digits (Suc (nat (- i))) (nat (- i)) else digits (Suc (nat i)) (nat i))"

text \<open>
  \<open>sendSimulatedData\<close>, the slot of the single-shot timers. \<open>row.first()\<close> of an empty
  row is outside what \<open>QList\<close> defines: the result is \<open>None\<close>.
\<close>

definition sendSimulatedData :: "env \<Rightarrow> ControlPanel \<Rightarrow> ControlPanel option" where
  "sendSimulatedData e st =
     (if \<not> simulationActivated st \<or> \<not> isConnected st then Some st
      else if m_row st < int (length (m_csvData st)) \<and> m_row st \<ge> 0 then
        (case m_csvData st ! nat (m_row st) of
           [] \<Rightarrow> None
         | first # others \<Rightarrow>
             (let cmd = ''CMD,1026,SIMP,'' @ first @ '';'';
                  st1 = (if cmd \<noteq> [] then snd (sendData e st cmd)
                         else showMessageBox ''Simulation CSV error''
                                (''Invalid column count at row '' @ arg_int (m_row st)) st);
                  st2 = st1\<lparr>m_row := m_row st1 + 1\<rparr>
              in Some (singleShot 1000 st2)))
      else Some (showMessageBox ''Pressure simulation finished'' ''Reached end of CSV file''
                   (setSimulationActivated e st False)))"

text \<open>
  What \<open>openCsv\<close> gets from outside: the name the file dialog returns, whether the file
  opens, its lines as \<open>QTextStream::readLine\<close> returns them, whether the temporary file
  opens for writing and then for reading, and what the temporary file held before.
\<close>

record csvDialog =
  dlgName :: QString
  fileOpens :: bool
  fileLines :: "QString list"
  tempWritable :: bool
  tempReadable :: bool
  tempOnDisk :: QByteArray

text \<open>The loop of \<open>openCsv\<close> that filters the lines into \<open>csv\<close>.\<close>

fun generateCsv :: "QString list \<Rightarrow> QString \<Rightarrow> QString" where
  "generateCsv [] csv = csv"
| "generateCsv (l # ls) csv =
     (let line = filter (\<lambda>c. c \<noteq> CHR '' '') l
      in if ba_startsWith line ''#'' \<or> line = [] then generateCsv ls csv
         else generateCsv ls
                (csv @ concat (map (\<lambda>c. if c = CHR ''$'' then ''1026'' else [c]) line) @ [CHR 0x0A]))"

definition openCsv :: "env \<Rightarrow> ControlPanel \<Rightarrow> csvDialog \<Rightarrow> ControlPanel" where
  "openCsv e st d =
     (if dlgName d = [] then st
      else
        (let st1 = st\<lparr>m_file := (m_file st)\<lparr>f_isOpen := False, f_fileName := dlgName d\<rparr>\<rparr>
         in if fileOpens d then
              (let st2 = st1\<lparr>m_file := (m_file st1)\<lparr>f_isOpen := True\<rparr>,
                             m_tempFile := (m_tempFile st1)\<lparr>f_isOpen := False\<rparr>\<rparr>;
                   st3 = (if simulationActivated st2 then setSimulationActivated e st2 False else st2);
                   csv = generateCsv (fileLines d) [];
                   st4 = st3\<lparr>m_tempFile :=
                               (m_tempFile st3)\<lparr>f_fileName := tempPath e @ ''/CC2022_temp.csv''\<rparr>\<rparr>;
                   st5 = (if tempWritable d
                          then st4\<lparr>m_tempFile := QFile_write (m_tempFile st4) (toUtf8 csv)\<rparr>
                          else st4);
                   disk = (if tempWritable d then toUtf8 csv else tempOnDisk d);
                   st6 = (if tempReadable d
                          then st5\<lparr>m_tempFile := (m_tempFile st5)\<lparr>f_isOpen := True\<rparr>,
                                    m_row := 1, m_csvData := readToList e disk\<rparr>
                          else st5);
                   st7 = printLn (''[INFO]'' @ [CHR 0x09] @ ''Loaded simulation CSV file from ''
                                  @ f_fileName (m_file st6)) st6;
                   st8 = printLn (''[INFO]'' @ [CHR 0x09] @ ''Processed simulation CSV saved at ''
                                  @ f_fileName (m_tempFile st7)) st7
               in emit CsvFileNameChanged st8)
            else emit CsvFileNameChanged (showMessageBox ''File open error'' (csvErrorString e) st1)))"

section \<open>Events\<close>

text \<open>
  Everything runs on one thread, one handler at a time. An event is a call of a public
  slot, a chunk of bytes from the plugin, a tick of the 20 Hz timer, a pending single-shot
  timer firing (\<open>Timeout i\<close> fires the \<open>i\<close>-th pending one), or the socket connecting or
  disconnecting.
\<close>

datatype event =
    OpenCsv csvDialog
  | UpdateContainerTime QString
  | SetSimulationMode bool
  | SetSimulationActivated bool
  | SetContainerTelemetryEnabled bool
  | UpdateCurrentTime QString
  | DataReceived QByteArray
  | Timeout nat
  | ConnectedChanged bool

fun handle :: "env \<Rightarrow> ControlPanel \<Rightarrow> event \<Rightarrow> ControlPanel option" where
  "handle e st (OpenCsv d) = Some (openCsv e st d)"
| "handle e st (UpdateContainerTime t) = Some (updateContainerTime e st t)"
| "handle e st (SetSimulationMode b) = Some (setSimulationMode e st b)"
| "handle e st (SetSimulationActivated b) = Some (setSimulationActivated e st b)"
| "handle e st (SetContainerTelemetryEnabled b) = Some (setContainerTelemetryEnabled e st b)"
| "handle e st (UpdateCurrentTime t) = Some (updateCurrentTime st t)"
| "handle e st (DataReceived data) = Some (onDataReceived e st data)"
| "handle e st (Timeout i) =
     (if i < length (singleShots st)
      then sendSimulatedData e
             (st\<lparr>singleShots := take i (singleShots st) @ drop (Suc i) (singleShots st)\<rparr>)
      else Some st)"
| "handle e st (ConnectedChanged b) = Some (st\<lparr>isConnected := b\<rparr>)"

fun run :: "env \<Rightarrow> ControlPanel \<Rightarrow> event list \<Rightarrow> ControlPanel option" where
  "run e st [] = Some st"
| "run e st (ev # evs) = (case handle e st ev of None \<Rightarrow> None | Some st' \<Rightarrow> run e st' evs)"

text \<open>An environment for the examples: every file opens, the socket takes every frame,
  and the CSV reader returns one row per line, the line as its only field.\<close>

fun oneFieldRows :: "QByteArray \<Rightarrow> QString \<Rightarrow> QString list list" where
  "oneFieldRows [] field = (if field = [] then [] else [[field]])"
| "oneFieldRows (c # cs) field =
     (if c = CHR 0x0A then [field] # oneFieldRows cs [] else oneFieldRows cs (field @ [c]))"

definition exampleEnv :: env where
  "exampleEnv =
     \<lparr>csvPath = (\<lambda>n. ''Documents/CanSat/log.csv''), csvOpens = (\<lambda>n. True),
      csvErrorString = ''Permission denied'', socketAccepts = (\<lambda>n. True),
      readToList = (\<lambda>b. oneFieldRows b []), tempPath = ''/tmp''\<rparr>"

text \<open>The same, but no log file can be opened.\<close>

definition failingEnv :: env where
  "failingEnv = exampleEnv\<lparr>csvOpens := (\<lambda>n. False)\<rparr>"

text \<open>
  A simulation file for the examples, and the state the control panel is in after a list
  of events, from the constructor on, in the example environment.
\<close>

definition exampleCsv :: csvDialog where
  "exampleCsv =
     \<lparr>dlgName = ''/home/u/sim.csv'', fileOpens = True,
      fileLines = [''# pressure'', [], ''$, 12.5'', ''30.2''],
      tempWritable = True, tempReadable = True, tempOnDisk = []\<rparr>"

definition stateAfter :: "event list \<Rightarrow> ControlPanel" where
  "stateAfter evs = the (run exampleEnv initial evs)"

text \<open>
  Two histories for the examples. In the first the operator connects, loads the
  simulation file, enables simulation mode and activates it. In the second the operator
  then switches the simulation off, enables and activates it again before the first tick,
  and the connection is lost.
\<close>

definition activation :: "event list" where
  "activation =
     [ConnectedChanged True, OpenCsv exampleCsv, SetSimulationMode True,
      SetSimulationActivated True]"

definition reactivation :: "event list" where
  "reactivation =
     activation @ [SetSimulationActivated False, SetSimulationMode True,
                   SetSimulationActivated True, ConnectedChanged False]"

text \<open>
  A frame on the socket that carries a row of the simulation file: its command, which
  starts after the three bytes before the payload and the fifteen bytes of header and
  addresses, begins with \<open>CMD,1026,SIMP,\<close>.
\<close>

definition isRowFrame :: "QByteArray \<Rightarrow> bool" where
  "isRowFrame f = (take 14 (drop 18 f) = ''CMD,1026,SIMP,'')"

text \<open>Bytes among which there is neither a \<open>/\<close> nor a \<open>*\<close>.\<close>

definition markerFree :: "QByteArray \<Rightarrow> bool" where
  "markerFree ba = (CHR ''/'' \<notin> set ba \<and> CHR ''*'' \<notin> set ba)"

section \<open>Facts about the frame encoder\<close>

lemma mask8: "(0xFF :: 'a::len word) = mask 8"
  by (simp add: mask_eq_exp_minus_1)

lemma low_byte: "unat ((w :: 'a::len word) AND 0xFF) = unat w mod 256"
proof -
  have "w AND 0xFF = take_bit 8 w" by (simp only: mask8 take_bit_eq_mask)
  then have "unat (w AND 0xFF) = take_bit 8 (unat w)" by (simp only: unsigned_take_bit_eq)
  then show ?thesis by (simp add: take_bit_eq_mod)
qed

lemma crc16: "unat (ucast (0xFF - ((w :: 16 word) AND 0xFF)) :: 8 word) = 255 - unat w mod 256"
proof -
  have le: "w AND 0xFF \<le> 0xFF" by (simp add: word_and_le1)
  have "unat (0xFF - (w AND 0xFF)) = unat (0xFF :: 16 word) - unat (w AND 0xFF)"
    using le by (simp add: unat_sub)
  then have u: "unat (0xFF - (w AND 0xFF)) = 255 - unat w mod 256"
    by (simp add: low_byte)
  show ?thesis
    by (simp add: unsigned_ucast_eq u take_bit_eq_mod)
qed

lemma crc32: "unat (ucast (0xFF - ((w :: 32 word) AND 0xFF)) :: 8 word) = 255 - unat w mod 256"
proof -
  have le: "w AND 0xFF \<le> 0xFF" by (simp add: word_and_le1)
  have "unat (0xFF - (w AND 0xFF)) = unat (0xFF :: 32 word) - unat (w AND 0xFF)"
    using le by (simp add: unat_sub)
  then have u: "unat (0xFF - (w AND 0xFF)) = 255 - unat w mod 256"
    by (simp add: low_byte)
  show ?thesis
    by (simp add: unsigned_ucast_eq u take_bit_eq_mod)
qed

lemma sum16_eq: "sum16 s bs = s + word_of_nat (sum_list (map of_char bs))"
  by (induction bs arbitrary: s) (simp_all add: add.assoc of_nat_of_char)

lemma sum32_eq: "sum32 s bs = s + word_of_nat (sum_list (map of_char bs))"
  by (induction bs arbitrary: s) (simp_all add: add.assoc of_nat_of_char)

lemma unat_sum16_mod: "unat (sum16 0 bs) mod 256 = sum_list (map of_char bs) mod 256"
proof -
  have "unat (sum16 0 bs) = sum_list (map of_char bs) mod 65536"
    by (simp add: sum16_eq unat_of_nat)
  then show ?thesis by (simp add: mod_mod_cancel)
qed

lemma unat_sum32_mod: "unat (sum32 0 bs) mod 256 = sum_list (map of_char bs) mod 256"
proof -
  have "unat (sum32 0 bs) = sum_list (map of_char bs) mod 4294967296"
    by (simp add: sum32_eq unat_of_nat)
  then show ?thesis by (simp add: mod_mod_cancel)
qed

lemma of_char_char_of_int: "(of_char (char_of (i::int)) :: nat) = nat (i mod 256)"
proof -
  have "int (of_char (char_of i) :: nat) = (of_char (char_of i) :: int)"
    by (simp only: of_nat_of_char)
  also have "\<dots> = i mod 256" by (simp only: of_char_of)
  finally show ?thesis by simp
qed

lemma int_and_255: "(y::int) AND 0xFF = y mod 256"
proof -
  have "(0xFF::int) = mask 8" by (simp add: mask_eq_exp_minus_1)
  then have "y AND 0xFF = take_bit 8 y" by (simp only: take_bit_eq_mask)
  then show ?thesis by (simp add: take_bit_eq_mod)
qed

lemma quint8_byte:
  "(of_char (char_of (uint (word_of_int x :: 8 word) AND 0xFF)) :: nat) = nat (x mod 256)"
  by (simp add: of_char_char_of_int int_and_255 uint_word_of_int)

lemma big_endian16:
  "256 * nat (drop_bit 8 (x::int) mod 256) + nat (drop_bit 0 x mod 256) = nat (x mod 65536)"
proof -
  have "x mod 65536 = 256 * (x div 256 mod 256) + x mod 256"
    using zmod_zmult2_eq [of 256 x 256] by simp
  then have "nat (x mod 65536) = nat (256 * (x div 256 mod 256) + x mod 256)"
    by simp
  also have "\<dots> = 256 * nat (x div 256 mod 256) + nat (x mod 256)"
    by (simp add: nat_add_distrib nat_mult_distrib)
  finally show ?thesis by (simp add: drop_bit_eq_div)
qed

lemma apiFrame_payload:
  "butlast (drop 3 (apiFrame data)) =
     map char_of [0x10, 0x00, 0x00, 0x7D, 0x33, 0xA2, 0x00, 0x41, 0xB1, 0x8C, 0x8D, 0xFF, 0xFE, 0x00, 0x00 :: nat] @ data"
  by (simp add: apiFrame_def Let_def toUtf8_def ba_replace_def butlast_append)

lemma apiFrame_crc:
  "(of_char (last (apiFrame data)) :: nat) =
     255 - sum_list (map of_char
       (map char_of [0x10, 0x00, 0x00, 0x00, 0x13, 0xA2, 0x00, 0x41, 0xB1, 0x8C, 0x8D, 0xFF, 0xFE, 0x00, 0x00 :: nat] @ data)) mod 256"
proof -
  have "last (apiFrame data) = char_of (unat (ucast (0xFF - (sum16 0
     (map char_of [0x10, 0x00, 0x00, 0x00, 0x13, 0xA2, 0x00, 0x41, 0xB1, 0x8C, 0x8D, 0xFF, 0xFE, 0x00, 0x00 :: nat] @ data)
       AND 0xFF)) :: 8 word))"
    by (simp add: apiFrame_def Let_def toUtf8_def)
  then show ?thesis
    by (simp only: of_char_of crc16 unat_sum16_mod) simp
qed

lemma uint_len16: "uint (word_of_nat (15 + n) - 1 :: 16 word) = (14 + int n) mod 65536"
proof -
  have "(word_of_nat (15 + n) - 1 :: 16 word) = word_of_nat (14 + n)"
    by simp
  then show ?thesis
    by (simp only: uint_nat unat_of_nat) (simp add: zmod_int)
qed

lemma apiFrame_length_field:
  "256 * (of_char (apiFrame data ! 1) :: nat) + of_char (apiFrame data ! 2) = (14 + length data) mod 65536"
proof -
  let ?len = "word_of_nat (15 + length data) - 1 :: 16 word"
  have 1: "apiFrame data ! 1 = char_of (uint (word_of_int (drop_bit 8 (uint ?len)) :: 8 word) AND 0xFF)"
    by (simp add: apiFrame_def Let_def toUtf8_def)
  have 2: "apiFrame data ! 2 = char_of (uint (word_of_int (drop_bit 0 (uint ?len)) :: 8 word) AND 0xFF)"
    by (simp add: apiFrame_def Let_def toUtf8_def)
  have "256 * (of_char (apiFrame data ! 1) :: nat) + of_char (apiFrame data ! 2) = nat (uint ?len mod 65536)"
    by (simp only: 1 2 quint8_byte big_endian16)
  also have "\<dots> = (14 + length data) mod 65536"
    by (simp only: uint_len16) (simp add: nat_mod_distrib nat_add_distrib)
  finally show ?thesis .
qed

lemma Communicator_apiFrame_payload:
  "butlast (drop 3 (Communicator_apiFrame data)) =
     map char_of [0x10, 0x00, 0x00, 0x7D, 0x33, 0xA2, 0x00, 0x41, 0xB1, 0x8C, 0x8D, 0xFF, 0xFE, 0x00, 0x00 :: nat] @ data"
  by (simp add: Communicator_apiFrame_def Let_def toUtf8_def butlast_append)

lemma Communicator_apiFrame_crc:
  "(of_char (last (Communicator_apiFrame data)) :: nat) =
     255 - sum_list (map of_char
       (map char_of [0x10, 0x00, 0x00, 0x7D, 0x33, 0xA2, 0x00, 0x41, 0xB1, 0x8C, 0x8D, 0xFF, 0xFE, 0x00, 0x00 :: nat] @ data)) mod 256"
proof -
  have "last (Communicator_apiFrame data) = char_of (unat (ucast (0xFF - (sum32 0
     (map char_of [0x10, 0x00, 0x00, 0x7D, 0x33, 0xA2, 0x00, 0x41, 0xB1, 0x8C, 0x8D, 0xFF, 0xFE, 0x00, 0x00 :: nat] @ data)
       AND 0xFF)) :: 8 word))"
    by (simp add: Communicator_apiFrame_def Let_def toUtf8_def)
  then show ?thesis
    by (simp only: of_char_of crc32 unat_sum32_mod) simp
qed

lemma Communicator_apiFrame_length_field:
  "256 * (of_char (Communicator_apiFrame data ! 1) :: nat) + of_char (Communicator_apiFrame data ! 2)
     = nat ((int ((15 + length data) mod 65536) - 6) mod 65536)"
proof -
  let ?len = "word_of_nat (15 + length data) :: 16 word"
  have 1: "Communicator_apiFrame data ! 1 = char_of (uint (word_of_int (drop_bit 8 (uint ?len - 6)) :: 8 word) AND 0xFF)"
    by (simp add: Communicator_apiFrame_def Let_def toUtf8_def)
  have 2: "Communicator_apiFrame data ! 2 = char_of (uint (word_of_int (drop_bit 0 (uint ?len - 6)) :: 8 word) AND 0xFF)"
    by (simp add: Communicator_apiFrame_def Let_def toUtf8_def)
  have "256 * (of_char (Communicator_apiFrame data ! 1) :: nat) + of_char (Communicator_apiFrame data ! 2) = nat ((uint ?len - 6) mod 65536)"
    by (simp only: 1 2 quint8_byte big_endian16)
  also have "uint ?len = int ((15 + length data) mod 65536)"
    by (simp only: uint_nat unat_of_nat) simp
  finally show ?thesis .
qed

lemma len_minus_6: "nat ((int ((15 + n) mod 65536) - 6) mod 65536) = (9 + n) mod 65536"
proof -
  have "(int ((15 + n) mod 65536) - 6) mod 65536 = (int (15 + n) - 6) mod 65536"
    by (simp add: zmod_int mod_diff_left_eq)
  also have "\<dots> = int ((9 + n) mod 65536)"
    by (simp add: zmod_int)
  finally show ?thesis by simp
qed

text \<open>
  C1 (as amended). A non-empty command sent while connected puts exactly one frame on the
  socket. In the frame of \<open>ControlPanel::sendData\<close> the fourth and fifth payload bytes are
  \<open>0x7D, 0x33\<close>, and the final byte is \<open>0xFF\<close> minus the sum modulo 256 of the payload
  with those two bytes counted as the \<open>0x00, 0x13\<close> they replaced: the checksum is taken
  before the substitution. In the frame of \<open>Communicator::sendData\<close> the final byte is
  \<open>0xFF\<close> minus the sum modulo 256 of the payload bytes as emitted. (The \<open>int\<close> sum of
  \<open>Communicator::sendData\<close> is taken to wrap at 32 bits.)
\<close>

theorem sendData_checksum:
  assumes "data \<noteq> []" and "isConnected st"
  shows "(\<exists>f. pluginWritten (snd (sendData e st data)) = pluginWritten st @ [f]
            \<and> take 2 (drop 3 (butlast (drop 3 f))) = map char_of [0x7D, 0x33 :: nat]
            \<and> (of_char (last f) :: nat) =
                255 - sum_list (map of_char
                  (ba_replace 3 2 (map char_of [0x00, 0x13 :: nat]) (butlast (drop 3 f)))) mod 256)
       \<and> (\<exists>g. Communicator_sendData True data = Some g
            \<and> (of_char (last g) :: nat) = 255 - sum_list (map of_char (butlast (drop 3 g))) mod 256)"
proof (intro conjI)
  have w: "pluginWritten (snd (sendData e st data)) = pluginWritten st @ [apiFrame data]"
    using assms by (simp add: sendData_def Plugin_write_def printLn_def)
  have r: "ba_replace 3 2 (map char_of [0x00, 0x13 :: nat]) (butlast (drop 3 (apiFrame data)))
      = map char_of [0x10, 0x00, 0x00, 0x00, 0x13, 0xA2, 0x00, 0x41, 0xB1, 0x8C, 0x8D, 0xFF, 0xFE, 0x00, 0x00 :: nat] @ data"
    by (simp add: apiFrame_payload ba_replace_def)
  have t: "take 2 (drop 3 (butlast (drop 3 (apiFrame data)))) = map char_of [0x7D, 0x33 :: nat]"
    by (simp add: apiFrame_payload)
  show "\<exists>f. pluginWritten (snd (sendData e st data)) = pluginWritten st @ [f]
            \<and> take 2 (drop 3 (butlast (drop 3 f))) = map char_of [0x7D, 0x33 :: nat]
            \<and> (of_char (last f) :: nat) =
                255 - sum_list (map of_char
                  (ba_replace 3 2 (map char_of [0x00, 0x13 :: nat]) (butlast (drop 3 f)))) mod 256"
    using w t by (intro exI [of _ "apiFrame data"]) (simp only: r apiFrame_crc simp_thms)
  show "\<exists>g. Communicator_sendData True data = Some g
            \<and> (of_char (last g) :: nat) = 255 - sum_list (map of_char (butlast (drop 3 g))) mod 256"
    using assms(1)
    by (simp add: Communicator_sendData_def Communicator_apiFrame_payload Communicator_apiFrame_crc)
qed

theorem sendData_checksum_witness:
  "''CMD,1026,SIM,ENABLE;'' \<noteq> [] \<and> isConnected (initial\<lparr>isConnected := True\<rparr>)
   \<and> (\<exists>f. pluginWritten (snd (sendData exampleEnv (initial\<lparr>isConnected := True\<rparr>) ''CMD,1026,SIM,ENABLE;''))
             = pluginWritten (initial\<lparr>isConnected := True\<rparr>) @ [f]
          \<and> (of_char (last f) :: nat) =
                255 - sum_list (map of_char
                  (ba_replace 3 2 (map char_of [0x00, 0x13 :: nat]) (butlast (drop 3 f)))) mod 256)
   \<and> (\<exists>g. Communicator_sendData True ''CMD,1026,SIM,ENABLE;'' = Some g
          \<and> (of_char (last g) :: nat) = 255 - sum_list (map of_char (butlast (drop 3 g))) mod 256)"
proof -
  have h1: "''CMD,1026,SIM,ENABLE;'' \<noteq> []" by simp
  have h2: "isConnected (initial\<lparr>isConnected := True\<rparr>)" by simp
  from sendData_checksum [OF h1 h2, where e = exampleEnv] h1 h2 show ?thesis by blast
qed

text \<open>
  The claim as stated fails for \<open>ControlPanel::sendData\<close>: over the payload bytes of the
  emitted frame the formula gives 169, the checksum byte is 70.
\<close>

theorem sendData_checksum_counterexample:
  "(of_char (last (last (pluginWritten (snd (sendData exampleEnv (initial\<lparr>isConnected := True\<rparr>)
        ''CMD,1026,SIM,ENABLE;''))))) :: nat) = 70
   \<and> 255 - sum_list (map of_char (butlast (drop 3 (last (pluginWritten (snd (sendData exampleEnv
        (initial\<lparr>isConnected := True\<rparr>) ''CMD,1026,SIM,ENABLE;'')))))) :: nat list) mod 256 = 169"
  by (simp add: sendData_def Plugin_write_def printLn_def initial_def apiFrame_crc
      apiFrame_payload)

text \<open>
  C3 (as amended). The two bytes after the \<open>0x7E\<close> start delimiter, read big-endian, are
  the payload length minus 1 in the frame of \<open>ControlPanel::sendData\<close> and the payload
  length minus 6 in the frame of \<open>Communicator::sendData\<close>, both modulo \<open>2^16\<close>; the
  payload is never shorter than 16 bytes.
\<close>

theorem sendData_length_field:
  assumes "data \<noteq> []" and "isConnected st"
  shows "(\<exists>f. pluginWritten (snd (sendData e st data)) = pluginWritten st @ [f]
            \<and> (of_char (hd f) :: nat) = 0x7E
            \<and> 16 \<le> length (butlast (drop 3 f))
            \<and> 256 * (of_char (f ! 1) :: nat) + of_char (f ! 2)
                = (length (butlast (drop 3 f)) - 1) mod 65536)
       \<and> (\<exists>g. Communicator_sendData True data = Some g
            \<and> (of_char (hd g) :: nat) = 0x7E
            \<and> 16 \<le> length (butlast (drop 3 g))
            \<and> 256 * (of_char (g ! 1) :: nat) + of_char (g ! 2)
                = (length (butlast (drop 3 g)) - 6) mod 65536)"
proof (intro conjI)
  from assms(1) have n: "1 \<le> length data"
    by (cases data) simp_all
  have w: "pluginWritten (snd (sendData e st data)) = pluginWritten st @ [apiFrame data]"
    using assms by (simp add: sendData_def Plugin_write_def printLn_def)
  have h: "(of_char (hd (apiFrame data)) :: nat) = 0x7E"
    by (simp add: apiFrame_def Let_def)
  have l: "length (butlast (drop 3 (apiFrame data))) = 15 + length data"
    by (simp add: apiFrame_payload)
  show "\<exists>f. pluginWritten (snd (sendData e st data)) = pluginWritten st @ [f]
            \<and> (of_char (hd f) :: nat) = 0x7E
            \<and> 16 \<le> length (butlast (drop 3 f))
            \<and> 256 * (of_char (f ! 1) :: nat) + of_char (f ! 2)
                = (length (butlast (drop 3 f)) - 1) mod 65536"
  proof (intro exI [of _ "apiFrame data"] conjI)
    show "16 \<le> length (butlast (drop 3 (apiFrame data)))"
      using n by (simp only: l; simp)
    show "256 * (of_char (apiFrame data ! 1) :: nat) + of_char (apiFrame data ! 2)
        = (length (butlast (drop 3 (apiFrame data))) - 1) mod 65536"
      by (simp only: l apiFrame_length_field; simp)
  qed (rule w, rule h)
  have h': "(of_char (hd (Communicator_apiFrame data)) :: nat) = 0x7E"
    by (simp add: Communicator_apiFrame_def Let_def)
  have l': "length (butlast (drop 3 (Communicator_apiFrame data))) = 15 + length data"
    by (simp add: Communicator_apiFrame_payload)
  show "\<exists>g. Communicator_sendData True data = Some g
            \<and> (of_char (hd g) :: nat) = 0x7E
            \<and> 16 \<le> length (butlast (drop 3 g))
            \<and> 256 * (of_char (g ! 1) :: nat) + of_char (g ! 2)
                = (length (butlast (drop 3 g)) - 6) mod 65536"
  proof (intro exI [of _ "Communicator_apiFrame data"] conjI)
    show "Communicator_sendData True data = Some (Communicator_apiFrame data)"
      using assms(1) by (simp add: Communicator_sendData_def)
    show "16 \<le> length (butlast (drop 3 (Communicator_apiFrame data)))"
      using n by (simp only: l'; simp)
    show "256 * (of_char (Communicator_apiFrame data ! 1) :: nat)
          + of_char (Communicator_apiFrame data ! 2)
        = (length (butlast (drop 3 (Communicator_apiFrame data))) - 6) mod 65536"
      by (simp only: l' Communicator_apiFrame_length_field len_minus_6; simp)
  qed (rule h')
qed

theorem sendData_length_field_witness:
  "''CMD,1026,SIM,ENABLE;'' \<noteq> [] \<and> isConnected (initial\<lparr>isConnected := True\<rparr>)
   \<and> (\<exists>f. pluginWritten (snd (sendData exampleEnv (initial\<lparr>isConnected := True\<rparr>) ''CMD,1026,SIM,ENABLE;''))
             = pluginWritten (initial\<lparr>isConnected := True\<rparr>) @ [f]
          \<and> 256 * (of_char (f ! 1) :: nat) + of_char (f ! 2)
                = (length (butlast (drop 3 f)) - 1) mod 65536)
   \<and> (\<exists>g. Communicator_sendData True ''CMD,1026,SIM,ENABLE;'' = Some g
          \<and> 256 * (of_char (g ! 1) :: nat) + of_char (g ! 2)
                = (length (butlast (drop 3 g)) - 6) mod 65536)"
proof -
  have h1: "''CMD,1026,SIM,ENABLE;'' \<noteq> []" by simp
  have h2: "isConnected (initial\<lparr>isConnected := True\<rparr>)" by simp
  from sendData_length_field [OF h1 h2, where e = exampleEnv] h1 h2 show ?thesis by blast
qed

theorem sendData_length_field_counterexample:
  "256 * (of_char (last (pluginWritten (snd (sendData exampleEnv (initial\<lparr>isConnected := True\<rparr>)
        ''CMD,1026,SIM,ENABLE;''))) ! 1) :: nat)
     + of_char (last (pluginWritten (snd (sendData exampleEnv (initial\<lparr>isConnected := True\<rparr>)
        ''CMD,1026,SIM,ENABLE;''))) ! 2) = 34
   \<and> length (butlast (drop 3 (last (pluginWritten (snd (sendData exampleEnv
        (initial\<lparr>isConnected := True\<rparr>) ''CMD,1026,SIM,ENABLE;'')))))) = 35
   \<and> 256 * (of_char (the (Communicator_sendData True ''CMD,1026,SIM,ENABLE;'') ! 1) :: nat)
     + of_char (the (Communicator_sendData True ''CMD,1026,SIM,ENABLE;'') ! 2) = 29
   \<and> length (butlast (drop 3 (the (Communicator_sendData True ''CMD,1026,SIM,ENABLE;'')))) = 35"
proof -
  have w: "last (pluginWritten (snd (sendData exampleEnv (initial\<lparr>isConnected := True\<rparr>)
      ''CMD,1026,SIM,ENABLE;''))) = apiFrame ''CMD,1026,SIM,ENABLE;''"
    by (simp add: sendData_def Plugin_write_def printLn_def initial_def)
  have g: "the (Communicator_sendData True ''CMD,1026,SIM,ENABLE;'')
      = Communicator_apiFrame ''CMD,1026,SIM,ENABLE;''"
    by (simp add: Communicator_sendData_def)
  show ?thesis
    by (simp only: w g apiFrame_length_field apiFrame_payload
        Communicator_apiFrame_length_field Communicator_apiFrame_payload len_minus_6; simp)
qed

section \<open>Facts about the stream reassembler\<close>

lemma loop_idle:
  "\<not> (ba_contains cursor start \<and> ba_contains cursor finish) \<Longrightarrow>
   onDataReceived_loop e st cursor bytes = (st, bytes)"
  by (subst onDataReceived_loop.simps) (simp only: if_False)

lemma ba_remove0_zero: "ba_remove0 ba 0 = ba"
  by (simp add: ba_remove0_def)

lemma parse_idle:
  assumes "\<not> (ba_contains (m_dataBuffer st @ data) start \<and> ba_contains (m_dataBuffer st @ data) finish)"
  shows "onDataReceived_parse e st data = st\<lparr>m_dataBuffer := m_dataBuffer st @ data\<rparr>"
  using assms by (simp add: onDataReceived_parse_def loop_idle ba_remove0_zero)

lemma onDataReceived_idle:
  assumes "\<not> (ba_contains (m_dataBuffer st @ data) start \<and> ba_contains (m_dataBuffer st @ data) finish)"
    and "length (m_dataBuffer st @ data) \<le> 102400"
  shows "onDataReceived e st data = st\<lparr>m_dataBuffer := m_dataBuffer st @ data\<rparr>"
  using assms by (simp add: onDataReceived_def parse_idle)

lemma createCsv_fields:
  "m_dataBuffer (snd (createCsv e st c)) = m_dataBuffer st"
  "processFrameCalls (snd (createCsv e st c)) = processFrameCalls st"
  "messageBoxes (snd (createCsv e st c)) = messageBoxes st"
  "fst (createCsv e st c) = csvOpens e (createCsvCalls st)"
  "emitted (snd (createCsv e st c)) = emitted st @ [PrintLn (''[INFO]'' @ [CHR 0x09] @ ''Creating new CSV file at '' @ csvPath e (createCsvCalls st))]"
  "f_written (m_payloadCsv (snd (createCsv e st c))) = f_written (m_payloadCsv st)"
  "f_written (m_containerCsv (snd (createCsv e st c))) = f_written (m_containerCsv st)"
  "m_containerCsv (snd (createCsv e st False)) = m_containerCsv st"
  "m_payloadCsv (snd (createCsv e st True)) = m_payloadCsv st"
  "f_isOpen (m_payloadCsv (snd (createCsv e st False))) = csvOpens e (createCsvCalls st)"
  "f_isOpen (m_containerCsv (snd (createCsv e st True))) = csvOpens e (createCsvCalls st)"
  by (simp_all add: createCsv_def Let_def printLn_def)

lemma processFrame_buffer: "m_dataBuffer (processFrame e st f) = m_dataBuffer st"
  by (simp add: processFrame_def Let_def case_prod_beta printLn_def showMessageBox_def
      createCsv_fields)

lemma processFrame_calls: "processFrameCalls (processFrame e st f) = processFrameCalls st @ [f]"
  by (simp add: processFrame_def Let_def case_prod_beta printLn_def showMessageBox_def
      createCsv_fields)

lemma processFrame_set_buffer:
  "processFrame e (st\<lparr>m_dataBuffer := b\<rparr>) f = (processFrame e st f)\<lparr>m_dataBuffer := b\<rparr>"
  by (simp add: processFrame_def Let_def case_prod_beta printLn_def showMessageBox_def
      createCsv_def)

lemma ba_indexOf_no_char: "c \<notin> set ba \<Longrightarrow> ba_indexOf ba (c # p) = - 1"
  by (induction ba) (auto simp add: ba_startsWith_def)

lemma replicate_idle:
  "\<not> (ba_contains (replicate n (CHR ''x'')) start \<and> ba_contains (replicate n (CHR ''x'')) finish)"
  by (simp add: ba_contains_def start_def finish_def toUtf8_def ba_indexOf_no_char)

lemma ba_indexOf_skip:
  "c \<notin> set xs \<Longrightarrow>
   ba_indexOf (xs @ ys) (c # p)
     = (if ba_indexOf ys (c # p) < 0 then - 1 else int (length xs) + ba_indexOf ys (c # p))"
proof (induction xs)
  case Nil
  show ?case using ba_indexOf_ge [of ys "c # p"] by simp
next
  case (Cons a xs)
  then have "c \<noteq> a" and "c \<notin> set xs" by simp_all
  then show ?case using Cons.IH by (simp add: ba_startsWith_def Let_def)
qed

lemma ba_contains_here: "ba_contains (xs @ pat @ ys) pat"
proof (induction xs)
  case Nil
  have "ba_startsWith (pat @ ys) pat" by (simp add: ba_startsWith_def)
  then show ?case by (cases "pat @ ys") (simp_all add: ba_contains_def ba_startsWith_def)
next
  case (Cons a xs)
  from Cons.IH have "0 \<le> ba_indexOf (xs @ pat @ ys) pat" by (rule ba_contains_indexOf)
  then show ?case by (simp add: ba_contains_def Let_def)
qed

lemma start_index:
  "markerFree pre \<Longrightarrow> ba_indexOf (pre @ start @ rest) start = int (length pre)"
  by (simp add: markerFree_def start_def toUtf8_def ba_indexOf_skip ba_startsWith_def)

lemma finish_index:
  "markerFree body \<Longrightarrow> ba_indexOf (body @ finish @ rest) finish = int (length body)"
  by (simp add: markerFree_def finish_def toUtf8_def ba_indexOf_skip ba_startsWith_def)

lemma tail_idle: "markerFree post \<Longrightarrow> \<not> ba_contains (finish @ post) start"
proof -
  assume m: "markerFree post"
  then have "ba_indexOf post ''/*'' = - 1"
    by (simp add: markerFree_def ba_indexOf_no_char)
  moreover from m have "\<not> ba_startsWith (CHR ''/'' # post) ''/*''"
    by (cases post) (auto simp add: markerFree_def ba_startsWith_def)
  ultimately show ?thesis
    by (simp add: finish_def start_def toUtf8_def ba_contains_def ba_startsWith_def)
qed

lemma loop_single:
  assumes "markerFree pre" and "markerFree body" and "markerFree post"
  shows "onDataReceived_loop e st (pre @ start @ body @ finish @ post) b
     = (processFrame e st body, b + (int (length pre) + 2) + (int (length body) + 2))"
proof -
  let ?s = "pre @ start @ body @ finish @ post"
  have cs: "ba_contains ?s start"
    by (rule ba_contains_here)
  have cf: "ba_contains ?s finish"
    using ba_contains_here [of "pre @ start @ body" finish post] by simp
  have si: "ba_indexOf ?s start = int (length pre)"
    using assms(1) by (rule start_index)
  have c1: "ba_mid ?s (int (length pre) + 2) = body @ finish @ post"
    by (simp add: ba_mid_def start_def toUtf8_def nat_add_distrib)
  have fi: "ba_indexOf (body @ finish @ post) finish = int (length body)"
    using assms(2) by (rule finish_index)
  have fr: "ba_left (body @ finish @ post) (int (length body)) = body"
    by (simp add: ba_left_def finish_def toUtf8_def)
  have c2: "ba_mid (body @ finish @ post) (int (length body)) = finish @ post"
    by (simp add: ba_mid_def)
  have idle: "\<not> (ba_contains (finish @ post) start \<and> ba_contains (finish @ post) finish)"
    using tail_idle [OF assms(3)] by simp
  have len: "int (length start) = 2" "int (length finish) = 2"
    by (simp_all add: start_def finish_def toUtf8_def)
  show ?thesis
    by (subst onDataReceived_loop.simps)
       (simp add: cs cf si c1 fi fr c2 Let_def loop_idle [OF idle] len)
qed

lemma single_parse:
  assumes "markerFree pre" and "markerFree body" and "markerFree post"
    and b: "m_dataBuffer st @ data = pre @ start @ body @ finish @ post"
  shows "onDataReceived_parse e st data = (processFrame e st body)\<lparr>m_dataBuffer := post\<rparr>"
proof -
  have len: "length start = 2" "length finish = 2"
    by (simp_all add: start_def finish_def toUtf8_def)
  have r: "ba_remove0 (pre @ start @ body @ finish @ post)
      (4 + (int (length pre) + int (length body))) = post"
    by (simp add: ba_remove0_def len)
  show ?thesis
    by (simp add: onDataReceived_parse_def b loop_single [OF assms(1-3)] processFrame_buffer
        processFrame_set_buffer r)
qed

text \<open>
  C2. Delivering a byte stream in chunks should hand on the same frames in the same order,
  and leave the same bytes in the inbound buffer, as delivering it in one chunk. The loop
  of \<open>onDataReceived\<close> does not achieve this. After a frame it continues with
  \<open>cursor.mid(fIndex, -1)\<close>, which still begins with the end marker, although \<open>bytes\<close>
  already counts that marker and the comment above that line says that the data is
  removed including the finish sequence. In every further round of the same receive event the
  marker that was kept answers the search for an end marker, and \<open>bytes\<close> runs ahead of
  the cursor.

  So a chunk that ends inside the second frame it carries loses that frame. The stream
  \<open>/*6026,A*//*1026,B*/\<close> delivered as \<open>/*6026,A*//*10\<close> and \<open>26,B*/\<close> hands on
  \<open>6026,A\<close> and an empty frame, leaves \<open>26,B*/\<close> in the buffer and writes nothing to the
  container log; delivered as one chunk it hands on \<open>6026,A\<close> and \<open>1026,B\<close>, leaves
  nothing and logs \<open>1026,B\<close>. And two frames in one chunk take two bytes more from what
  follows them than the same frames in two chunks: of \<open>xyz\<close> after the second frame,
  \<open>xyz\<close> is left when the frames come in two chunks and \<open>z\<close> when they come in one.
  All of this is far below the size at which the buffer is cleared.
\<close>

theorem frame_lost_at_chunk_boundary:
  "processFrameCalls (foldl (onDataReceived exampleEnv) initial [''/*6026,A*//*10'', ''26,B*/''])
     = [''6026,A'', []]
   \<and> m_dataBuffer (foldl (onDataReceived exampleEnv) initial [''/*6026,A*//*10'', ''26,B*/''])
     = ''26,B*/''
   \<and> f_written (m_containerCsv
        (foldl (onDataReceived exampleEnv) initial [''/*6026,A*//*10'', ''26,B*/''])) = []
   \<and> processFrameCalls
        (onDataReceived exampleEnv initial (concat [''/*6026,A*//*10'', ''26,B*/'']))
     = [''6026,A'', ''1026,B'']
   \<and> m_dataBuffer (onDataReceived exampleEnv initial (concat [''/*6026,A*//*10'', ''26,B*/'']))
     = []
   \<and> f_written (m_containerCsv
        (onDataReceived exampleEnv initial (concat [''/*6026,A*//*10'', ''26,B*/''])))
     = [''1026,B'', [CHR 0x0A]]
   \<and> m_dataBuffer (foldl (onDataReceived exampleEnv) initial [''/*6026,A*/'', ''/*1026,B*/xyz''])
     = ''xyz''
   \<and> m_dataBuffer (onDataReceived exampleEnv initial (concat [''/*6026,A*/'', ''/*1026,B*/xyz'']))
     = ''z''"
  by (simp add: onDataReceived_def onDataReceived_parse_def onDataReceived_loop.simps Let_def
      initial_def start_def finish_def toUtf8_def ba_contains_def ba_startsWith_def ba_mid_def
      ba_left_def ba_remove0_def processFrame_def printLn_def fromUtf8_def createCsv_def
      exampleEnv_def closedFile_def QFile_write_def showMessageBox_def emit_def)

lemma loop_example:
  "onDataReceived_loop e st ''noise/*6026,A,B*/moretrailing'' 0
     = (processFrame e st ''6026,A,B'', 17)"
  by (simp add: onDataReceived_loop.simps Let_def start_def finish_def toUtf8_def
      ba_contains_def ba_startsWith_def ba_mid_def ba_left_def)

lemma parse_example:
  assumes "m_dataBuffer st = []"
  shows "onDataReceived e st ''noise/*6026,A,B*/moretrailing''
     = (processFrame e st ''6026,A,B'')\<lparr>m_dataBuffer := ''moretrailing''\<rparr>"
  using assms
  by (simp add: onDataReceived_def onDataReceived_parse_def loop_example processFrame_buffer
      processFrame_set_buffer ba_remove0_def)

text \<open>
  C4. From an empty inbound buffer, the bytes \<open>noise/*6026,A,B*/moretrailing\<close> in one
  receive event hand exactly one frame, \<open>6026,A,B\<close>, to \<open>processFrame\<close> and leave
  exactly \<open>moretrailing\<close> in the buffer. The frame goes to the payload log and the
  container log is untouched: when the payload log is open or can be created, the frame
  and a newline are written to it and the frame is displayed; when it cannot be created,
  the error is reported and nothing is written.
\<close>

theorem onDataReceived_example:
  assumes "m_dataBuffer st = []"
  shows "processFrameCalls (onDataReceived e st ''noise/*6026,A,B*/moretrailing'')
           = processFrameCalls st @ [''6026,A,B'']
       \<and> m_dataBuffer (onDataReceived e st ''noise/*6026,A,B*/moretrailing'') = ''moretrailing''
       \<and> m_containerCsv (onDataReceived e st ''noise/*6026,A,B*/moretrailing'') = m_containerCsv st
       \<and> (if f_isOpen (m_payloadCsv st) \<or> csvOpens e (createCsvCalls st)
          then f_isOpen (m_payloadCsv (onDataReceived e st ''noise/*6026,A,B*/moretrailing''))
             \<and> f_written (m_payloadCsv (onDataReceived e st ''noise/*6026,A,B*/moretrailing''))
                 = f_written (m_payloadCsv st) @ [''6026,A,B'', [CHR 0x0A]]
             \<and> last (emitted (onDataReceived e st ''noise/*6026,A,B*/moretrailing''))
                 = PrintLn (''  [RX]'' @ [CHR 0x09] @ ''6026,A,B'')
          else \<not> f_isOpen (m_payloadCsv (onDataReceived e st ''noise/*6026,A,B*/moretrailing''))
             \<and> f_written (m_payloadCsv (onDataReceived e st ''noise/*6026,A,B*/moretrailing''))
                 = f_written (m_payloadCsv st)
             \<and> messageBoxes (onDataReceived e st ''noise/*6026,A,B*/moretrailing'')
                 = messageBoxes st @ [(''Error while creating payload CSV'', csvErrorString e)])"
  unfolding parse_example [OF assms]
  by (simp add: processFrame_def Let_def case_prod_beta printLn_def showMessageBox_def
      createCsv_fields ba_startsWith_def toUtf8_def fromUtf8_def QFile_write_def)

theorem onDataReceived_example_witness:
  "m_dataBuffer initial = []
   \<and> processFrameCalls (onDataReceived exampleEnv initial ''noise/*6026,A,B*/moretrailing'')
       = [''6026,A,B'']
   \<and> m_dataBuffer (onDataReceived exampleEnv initial ''noise/*6026,A,B*/moretrailing'')
       = ''moretrailing''
   \<and> f_written (m_payloadCsv (onDataReceived exampleEnv initial ''noise/*6026,A,B*/moretrailing''))
       = [''6026,A,B'', [CHR 0x0A]]
   \<and> f_written (m_containerCsv (onDataReceived exampleEnv initial ''noise/*6026,A,B*/moretrailing''))
       = []"
proof -
  have h: "m_dataBuffer initial = []" by (simp add: initial_def)
  from onDataReceived_example [OF h, of exampleEnv] h show ?thesis
    by (simp add: initial_def exampleEnv_def closedFile_def)
qed

text \<open>
  What one receive event, and what a run of them, hands on and leaves behind depends on
  the bytes alone: on the buffer and the chunks, not on the logs or the environment. And
  every frame handed on in a receive event lies in the bytes that the event then removes
  from the front of the buffer.
\<close>

lemma ba_mid_drop: "ba_mid ba pos = drop (nat pos) ba"
  by (simp add: ba_mid_def)

lemma ba_left_take: "ba_left ba len = take (nat len) ba"
  by (simp add: ba_left_def)

lemma ba_remove0_drop: "0 \<le> len \<Longrightarrow> ba_remove0 ba len = drop (nat len) ba"
  by (simp add: ba_remove0_def)

lemma piece_inside:
  assumes "k \<le> m"
  shows "\<exists>ps ss. take (p + m) B = ps @ take k (drop p B) @ ss"
proof -
  have "take (p + m) B = take p B @ take m (drop p B)"
    by (simp add: take_add)
  also have "take m (drop p B) = take k (drop p B) @ take (m - k) (drop k (drop p B))"
    using assms take_add [of k "m - k" "drop p B"] by simp
  finally show ?thesis by blast
qed

lemma inside_longer:
  assumes "a \<le> b" and "take a B = ps @ f @ ss"
  shows "\<exists>ps' ss'. take b B = ps' @ f @ ss'"
proof -
  have "take b B = take a B @ take (b - a) (drop a B)"
    using assms(1) take_add [of a "b - a" B] by simp
  then have "take b B = ps @ f @ (ss @ take (b - a) (drop a B))"
    by (simp add: assms(2))
  then show ?thesis by blast
qed

lemma loop_consumed:
  "\<exists>fs n. 0 \<le> n
     \<and> (\<forall>e st b.
          processFrameCalls (fst (onDataReceived_loop e st cursor b)) = processFrameCalls st @ fs
        \<and> m_dataBuffer (fst (onDataReceived_loop e st cursor b)) = m_dataBuffer st
        \<and> snd (onDataReceived_loop e st cursor b) = b + n)
     \<and> (\<forall>B p. cursor = drop p B \<longrightarrow>
          (\<forall>f \<in> set fs. \<exists>ps ss. take (p + nat n) B = ps @ f @ ss))"
proof (induction "length cursor" arbitrary: cursor rule: less_induct)
  case less
  show ?case
  proof (cases "ba_contains cursor start \<and> ba_contains cursor finish")
    case False
    then have "\<forall>e st b. onDataReceived_loop e st cursor b = (st, b)"
      by (simp add: loop_idle)
    then have "0 \<le> (0::int)
     \<and> (\<forall>e st b.
          processFrameCalls (fst (onDataReceived_loop e st cursor b)) = processFrameCalls st @ []
        \<and> m_dataBuffer (fst (onDataReceived_loop e st cursor b)) = m_dataBuffer st
        \<and> snd (onDataReceived_loop e st cursor b) = b + 0)
     \<and> (\<forall>B p. cursor = drop p B \<longrightarrow>
          (\<forall>f \<in> set []. \<exists>ps ss. take (p + nat 0) B = ps @ f @ ss))"
      by simp
    then show ?thesis by blast
  next
    case True
    define sIndex where "sIndex = ba_indexOf cursor start"
    define cursor1 where "cursor1 = ba_mid cursor (sIndex + int (length start))"
    define fIndex where "fIndex = ba_indexOf cursor1 finish"
    define frame where "frame = ba_left cursor1 fIndex"
    define cursor2 where "cursor2 = ba_mid cursor1 fIndex"
    from True have ne: "cursor \<noteq> []"
      using ba_contains_nonempty [of cursor start] by (simp add: start_def toUtf8_def)
    from True have s0: "0 \<le> sIndex"
      unfolding sIndex_def using ba_contains_indexOf [of cursor start] by simp
    then have "0 < sIndex + int (length start)"
      by (simp add: start_def toUtf8_def)
    then have "length cursor1 < length cursor"
      unfolding cursor1_def using ne by (rule length_ba_mid_less)
    moreover have "length cursor2 \<le> length cursor1"
      unfolding cursor2_def by (rule length_ba_mid_le)
    ultimately have "length cursor2 < length cursor" by simp
    from less [OF this] obtain fs n where n: "0 \<le> n"
      and IH: "\<And>e st b.
        processFrameCalls (fst (onDataReceived_loop e st cursor2 b)) = processFrameCalls st @ fs
      \<and> m_dataBuffer (fst (onDataReceived_loop e st cursor2 b)) = m_dataBuffer st
      \<and> snd (onDataReceived_loop e st cursor2 b) = b + n"
      and inside: "\<And>B p f. cursor2 = drop p B \<Longrightarrow> f \<in> set fs
          \<Longrightarrow> \<exists>ps ss. take (p + nat n) B = ps @ f @ ss"
      by blast
    have f0: "- 1 \<le> fIndex"
      unfolding fIndex_def by (rule ba_indexOf_ge)
    define n' where "n' = (sIndex + 2) + (fIndex + 2) + n"
    have n': "0 \<le> n'" using s0 f0 n by (simp add: n'_def)
    have step: "onDataReceived_loop e st cursor b
        = onDataReceived_loop e (processFrame e st frame) cursor2
            (b + (sIndex + int (length start)) + (fIndex + int (length finish)))" for e st b
      by (subst onDataReceived_loop.simps)
         (simp only: True simp_thms if_True Let_def sIndex_def cursor1_def fIndex_def frame_def
            cursor2_def)
    have run: "\<forall>e st b.
        processFrameCalls (fst (onDataReceived_loop e st cursor b)) = processFrameCalls st @ (frame # fs)
      \<and> m_dataBuffer (fst (onDataReceived_loop e st cursor b)) = m_dataBuffer st
      \<and> snd (onDataReceived_loop e st cursor b) = b + n'"
      by (simp add: step IH processFrame_calls processFrame_buffer start_def finish_def toUtf8_def
          n'_def)
    have pos: "\<exists>ps ss. take (p + nat n') B = ps @ f @ ss"
      if c: "cursor = drop p B" and f: "f \<in> set (frame # fs)" for B p f
    proof -
      define p1 where "p1 = p + nat (sIndex + 2)"
      have c1: "cursor1 = drop p1 B"
        by (simp add: cursor1_def ba_mid_drop c p1_def start_def toUtf8_def add.commute)
      have fr: "frame = take (nat fIndex) (drop p1 B)"
        by (simp add: frame_def ba_left_take c1)
      have c2: "cursor2 = drop (p1 + nat fIndex) B"
        by (simp add: cursor2_def ba_mid_drop c1 add.commute)
      have le: "p1 + nat fIndex + nat n \<le> p + nat n'"
        using s0 f0 n by (simp add: p1_def n'_def)
      show ?thesis
      proof (cases "f = frame")
        case True
        have "\<exists>ps ss. take (p1 + nat fIndex) B = ps @ take (nat fIndex) (drop p1 B) @ ss"
          by (rule piece_inside) simp
        then obtain ps ss where "take (p1 + nat fIndex) B = ps @ f @ ss"
          using True fr by auto
        moreover have "p1 + nat fIndex \<le> p + nat n'" using le by simp
        ultimately show ?thesis using inside_longer by blast
      next
        case False
        with f have "f \<in> set fs" by simp
        with c2 obtain ps ss where "take (p1 + nat fIndex + nat n) B = ps @ f @ ss"
          using inside by blast
        with le show ?thesis using inside_longer by blast
      qed
    qed
    from n' run pos show ?thesis by blast
  qed
qed

lemma parse_consumed:
  "\<exists>fs n. 0 \<le> n
     \<and> (\<forall>f \<in> set fs. \<exists>ps ss. take (nat n) B = ps @ f @ ss)
     \<and> (\<forall>e st data. m_dataBuffer st @ data = B \<longrightarrow>
          processFrameCalls (onDataReceived_parse e st data) = processFrameCalls st @ fs
        \<and> m_dataBuffer (onDataReceived_parse e st data) = drop (nat n) B)"
proof -
  from loop_consumed [of B] obtain fs n where n: "0 \<le> n"
    and run: "\<And>e st b.
        processFrameCalls (fst (onDataReceived_loop e st B b)) = processFrameCalls st @ fs
      \<and> m_dataBuffer (fst (onDataReceived_loop e st B b)) = m_dataBuffer st
      \<and> snd (onDataReceived_loop e st B b) = b + n"
    and inside: "\<And>C p f. B = drop p C \<Longrightarrow> f \<in> set fs
          \<Longrightarrow> \<exists>ps ss. take (p + nat n) C = ps @ f @ ss"
    by blast
  have "\<forall>f \<in> set fs. \<exists>ps ss. take (nat n) B = ps @ f @ ss"
    using inside [where C = B and p = 0] by simp
  moreover have "\<forall>e st data. m_dataBuffer st @ data = B \<longrightarrow>
          processFrameCalls (onDataReceived_parse e st data) = processFrameCalls st @ fs
        \<and> m_dataBuffer (onDataReceived_parse e st data) = drop (nat n) B"
    using n by (auto simp add: onDataReceived_parse_def Let_def case_prod_beta run ba_remove0_drop)
  ultimately show ?thesis using n by blast
qed

lemma event_same:
  "\<exists>fs R. \<forall>e st data. m_dataBuffer st @ data = B \<longrightarrow>
      processFrameCalls (onDataReceived e st data) = processFrameCalls st @ fs
    \<and> m_dataBuffer (onDataReceived e st data) = R"
proof -
  from parse_consumed [of B] obtain fs n where
    "\<forall>e st data. m_dataBuffer st @ data = B \<longrightarrow>
          processFrameCalls (onDataReceived_parse e st data) = processFrameCalls st @ fs
        \<and> m_dataBuffer (onDataReceived_parse e st data) = drop (nat n) B"
    by blast
  then have "\<forall>e st data. m_dataBuffer st @ data = B \<longrightarrow>
      processFrameCalls (onDataReceived e st data) = processFrameCalls st @ fs
    \<and> m_dataBuffer (onDataReceived e st data)
        = (if int (length (drop (nat n) B)) > 1024 * 10 * 10 then [] else drop (nat n) B)"
    by (simp add: onDataReceived_def Let_def)
  then show ?thesis by blast
qed

lemma run_same:
  "m_dataBuffer st = m_dataBuffer st' \<Longrightarrow>
   \<exists>fs. processFrameCalls (foldl (onDataReceived e) st cs) = processFrameCalls st @ fs
      \<and> processFrameCalls (foldl (onDataReceived e') st' cs) = processFrameCalls st' @ fs
      \<and> m_dataBuffer (foldl (onDataReceived e) st cs) = m_dataBuffer (foldl (onDataReceived e') st' cs)"
proof (induction cs arbitrary: st st')
  case Nil
  then show ?case by simp
next
  case (Cons c cs)
  from event_same [of "m_dataBuffer st @ c"] obtain fs R where ev: "\<And>e st1 data.
      m_dataBuffer st1 @ data = m_dataBuffer st @ c \<Longrightarrow>
      processFrameCalls (onDataReceived e st1 data) = processFrameCalls st1 @ fs
    \<and> m_dataBuffer (onDataReceived e st1 data) = R"
    by blast
  have a: "processFrameCalls (onDataReceived e st c) = processFrameCalls st @ fs"
    and a': "processFrameCalls (onDataReceived e' st' c) = processFrameCalls st' @ fs"
    and b: "m_dataBuffer (onDataReceived e st c) = m_dataBuffer (onDataReceived e' st' c)"
    using ev [of st c e] ev [of st' c e'] Cons.prems by simp_all
  from Cons.IH [OF b] obtain gs where
    "processFrameCalls (foldl (onDataReceived e) (onDataReceived e st c) cs)
       = processFrameCalls (onDataReceived e st c) @ gs"
    "processFrameCalls (foldl (onDataReceived e') (onDataReceived e' st' c) cs)
       = processFrameCalls (onDataReceived e' st' c) @ gs"
    "m_dataBuffer (foldl (onDataReceived e) (onDataReceived e st c) cs)
       = m_dataBuffer (foldl (onDataReceived e') (onDataReceived e' st' c) cs)"
    by blast
  then have "processFrameCalls (foldl (onDataReceived e) st (c # cs)) = processFrameCalls st @ (fs @ gs)
      \<and> processFrameCalls (foldl (onDataReceived e') st' (c # cs)) = processFrameCalls st' @ (fs @ gs)
      \<and> m_dataBuffer (foldl (onDataReceived e) st (c # cs))
          = m_dataBuffer (foldl (onDataReceived e') st' (c # cs))"
    by (simp add: a a')
  then show ?case by blast
qed

lemma fresh_start:
  assumes "m_dataBuffer st = []"
  shows "processFrameCalls (foldl (onDataReceived e) st cs)
           = processFrameCalls st @ processFrameCalls (foldl (onDataReceived e) initial cs)
       \<and> m_dataBuffer (foldl (onDataReceived e) st cs)
           = m_dataBuffer (foldl (onDataReceived e) initial cs)"
proof -
  have "m_dataBuffer st = m_dataBuffer initial"
    using assms by (simp add: initial_def)
  from run_same [OF this, of e cs e] obtain fs where
    "processFrameCalls (foldl (onDataReceived e) st cs) = processFrameCalls st @ fs"
    "processFrameCalls (foldl (onDataReceived e) initial cs) = processFrameCalls initial @ fs"
    "m_dataBuffer (foldl (onDataReceived e) st cs) = m_dataBuffer (foldl (onDataReceived e) initial cs)"
    by blast
  moreover have "processFrameCalls initial = []" by (simp add: initial_def)
  ultimately show ?thesis by simp
qed

text \<open>
  C5 (as amended). The limit in the code is \<open>1024 * 10 * 10 = 102,400\<close> bytes. After any
  receive event, if the bytes remaining unconsumed in the inbound buffer (what is left
  once the parsed bytes are removed from its front) exceed 102,400, the entire buffer is
  cleared; consequently the inbound buffer never retains more than 102,400 bytes between
  receive events. And no frame is ever produced from a buffer that was cleared this way:
  the clearing changes nothing but the buffer, the frames handed on in that event all lie
  in the bytes that the parse removed, none in the cleared ones, and what any later
  receive events hand on and leave in the buffer is what the same events hand on and
  leave from the empty buffer of a control panel that has just been constructed.
\<close>

theorem buffer_purge:
  "length (m_dataBuffer (onDataReceived e st data)) \<le> 102400
   \<and> m_dataBuffer (onDataReceived e st data)
       = (if length (m_dataBuffer (onDataReceived_parse e st data)) > 102400 then []
          else m_dataBuffer (onDataReceived_parse e st data))
   \<and> (length (m_dataBuffer (onDataReceived_parse e st data)) > 102400 \<longrightarrow>
        onDataReceived e st data = (onDataReceived_parse e st data)\<lparr>m_dataBuffer := []\<rparr>
      \<and> (\<exists>consumed.
            m_dataBuffer st @ data = consumed @ m_dataBuffer (onDataReceived_parse e st data)
          \<and> (\<forall>f \<in> set (drop (length (processFrameCalls st))
                            (processFrameCalls (onDataReceived e st data))).
                \<exists>ps ss. consumed = ps @ f @ ss))
      \<and> processFrameCalls (foldl (onDataReceived e) (onDataReceived e st data) later)
          = processFrameCalls (onDataReceived e st data)
            @ processFrameCalls (foldl (onDataReceived e) initial later)
      \<and> m_dataBuffer (foldl (onDataReceived e) (onDataReceived e st data) later)
          = m_dataBuffer (foldl (onDataReceived e) initial later))"
proof (intro conjI impI)
  show "length (m_dataBuffer (onDataReceived e st data)) \<le> 102400"
    by (simp add: onDataReceived_def Let_def)
  show "m_dataBuffer (onDataReceived e st data)
       = (if length (m_dataBuffer (onDataReceived_parse e st data)) > 102400 then []
          else m_dataBuffer (onDataReceived_parse e st data))"
    by (simp add: onDataReceived_def Let_def)
next
  assume big: "length (m_dataBuffer (onDataReceived_parse e st data)) > 102400"
  then show cleared:
    "onDataReceived e st data = (onDataReceived_parse e st data)\<lparr>m_dataBuffer := []\<rparr>"
    by (simp add: onDataReceived_def Let_def)
  from parse_consumed [of "m_dataBuffer st @ data"] obtain fs n
    where inside: "\<forall>f \<in> set fs. \<exists>ps ss. take (nat n) (m_dataBuffer st @ data) = ps @ f @ ss"
      and calls: "processFrameCalls (onDataReceived_parse e st data) = processFrameCalls st @ fs"
      and rest: "m_dataBuffer (onDataReceived_parse e st data) = drop (nat n) (m_dataBuffer st @ data)"
    by blast
  have "m_dataBuffer st @ data
      = take (nat n) (m_dataBuffer st @ data) @ m_dataBuffer (onDataReceived_parse e st data)"
    by (simp only: rest append_take_drop_id)
  moreover have "\<forall>f \<in> set (drop (length (processFrameCalls st))
                            (processFrameCalls (onDataReceived e st data))).
                \<exists>ps ss. take (nat n) (m_dataBuffer st @ data) = ps @ f @ ss"
    using inside by (simp add: cleared calls)
  ultimately show "\<exists>consumed.
            m_dataBuffer st @ data = consumed @ m_dataBuffer (onDataReceived_parse e st data)
          \<and> (\<forall>f \<in> set (drop (length (processFrameCalls st))
                            (processFrameCalls (onDataReceived e st data))).
                \<exists>ps ss. consumed = ps @ f @ ss)"
    by blast
  have empty: "m_dataBuffer (onDataReceived e st data) = []"
    by (simp add: cleared)
  from fresh_start [OF empty, of e later]
  show "processFrameCalls (foldl (onDataReceived e) (onDataReceived e st data) later)
          = processFrameCalls (onDataReceived e st data)
            @ processFrameCalls (foldl (onDataReceived e) initial later)"
    and "m_dataBuffer (foldl (onDataReceived e) (onDataReceived e st data) later)
          = m_dataBuffer (foldl (onDataReceived e) initial later)"
    by simp_all
qed

theorem buffer_purge_witness:
  "length (m_dataBuffer (onDataReceived_parse exampleEnv initial
       (''/*6026,A,B*/'' @ replicate 102401 (CHR ''x'')))) > 102400
   \<and> m_dataBuffer (onDataReceived exampleEnv initial
       (''/*6026,A,B*/'' @ replicate 102401 (CHR ''x''))) = []
   \<and> processFrameCalls (onDataReceived exampleEnv initial
       (''/*6026,A,B*/'' @ replicate 102401 (CHR ''x''))) = [''6026,A,B'']
   \<and> processFrameCalls (foldl (onDataReceived exampleEnv)
       (onDataReceived exampleEnv initial (''/*6026,A,B*/'' @ replicate 102401 (CHR ''x'')))
       [''/*1026,C*/'']) = [''6026,A,B'', ''1026,C'']
   \<and> m_dataBuffer (foldl (onDataReceived exampleEnv)
       (onDataReceived exampleEnv initial (''/*6026,A,B*/'' @ replicate 102401 (CHR ''x'')))
       [''/*1026,C*/'']) = []"
proof -
  let ?R = "replicate 102401 (CHR ''x'')"
  let ?D = "''/*6026,A,B*/'' @ ?R"
  have b: "m_dataBuffer initial = []" and p: "processFrameCalls initial = []"
    by (simp_all add: initial_def)
  have m: "markerFree []" "markerFree ''6026,A,B''" "markerFree ?R" "markerFree ''1026,C''"
    by (simp_all add: markerFree_def)
  have "m_dataBuffer initial @ ?D = [] @ start @ ''6026,A,B'' @ finish @ ?R"
    by (simp add: b start_def finish_def toUtf8_def)
  with m(1,2,3) have parse: "onDataReceived_parse exampleEnv initial ?D
      = (processFrame exampleEnv initial ''6026,A,B'')\<lparr>m_dataBuffer := ?R\<rparr>"
    by (rule single_parse)
  have big: "length (m_dataBuffer (onDataReceived_parse exampleEnv initial ?D)) > 102400"
    by (simp only: parse) simp
  have calls: "processFrameCalls (onDataReceived_parse exampleEnv initial ?D) = [''6026,A,B'']"
    by (simp only: parse) (simp add: processFrame_calls p)
  have "m_dataBuffer initial @ ''/*1026,C*/'' = [] @ start @ ''1026,C'' @ finish @ []"
    by (simp add: b start_def finish_def toUtf8_def)
  with m(1,4,1) have "onDataReceived_parse exampleEnv initial ''/*1026,C*/''
      = (processFrame exampleEnv initial ''1026,C'')\<lparr>m_dataBuffer := []\<rparr>"
    by (rule single_parse)
  then have later: "processFrameCalls (foldl (onDataReceived exampleEnv) initial [''/*1026,C*/''])
        = [''1026,C'']"
      "m_dataBuffer (foldl (onDataReceived exampleEnv) initial [''/*1026,C*/'']) = []"
    by (simp_all add: onDataReceived_def processFrame_calls p)
  note t = buffer_purge [of exampleEnv initial ?D "[''/*1026,C*/'']"]
  from t big have c: "onDataReceived exampleEnv initial ?D
      = (onDataReceived_parse exampleEnv initial ?D)\<lparr>m_dataBuffer := []\<rparr>"
    by blast
  from t big have l1: "processFrameCalls (foldl (onDataReceived exampleEnv)
        (onDataReceived exampleEnv initial ?D) [''/*1026,C*/''])
      = processFrameCalls (onDataReceived exampleEnv initial ?D)
        @ processFrameCalls (foldl (onDataReceived exampleEnv) initial [''/*1026,C*/''])"
    by blast
  from t big have l2: "m_dataBuffer (foldl (onDataReceived exampleEnv)
        (onDataReceived exampleEnv initial ?D) [''/*1026,C*/''])
      = m_dataBuffer (foldl (onDataReceived exampleEnv) initial [''/*1026,C*/''])"
    by blast
  have e: "m_dataBuffer (onDataReceived exampleEnv initial ?D) = []"
    by (simp only: c) simp
  have "processFrameCalls (onDataReceived exampleEnv initial ?D)
      = processFrameCalls (onDataReceived_parse exampleEnv initial ?D)"
    by (simp only: c) simp
  then have f: "processFrameCalls (onDataReceived exampleEnv initial ?D) = [''6026,A,B'']"
    by (simp only: calls)
  have g: "processFrameCalls (foldl (onDataReceived exampleEnv)
        (onDataReceived exampleEnv initial ?D) [''/*1026,C*/'']) = [''6026,A,B'', ''1026,C'']"
    by (simp only: l1 f later) simp
  have h: "m_dataBuffer (foldl (onDataReceived exampleEnv)
        (onDataReceived exampleEnv initial ?D) [''/*1026,C*/'']) = []"
    by (simp only: l2 later)
  from big e f g h show ?thesis by blast
qed

text \<open>
  The claim as stated fails: 10,241 bytes without a frame stay in the buffer.
\<close>

theorem buffer_purge_counterexample:
  "length (m_dataBuffer (onDataReceived exampleEnv initial (replicate 10241 (CHR ''x'')))) = 10241"
proof -
  have b: "m_dataBuffer initial = []" by (simp add: initial_def)
  have "onDataReceived exampleEnv initial (replicate 10241 (CHR ''x''))
      = initial\<lparr>m_dataBuffer := m_dataBuffer initial @ replicate 10241 (CHR ''x'')\<rparr>"
    using replicate_idle [of 10241] by (intro onDataReceived_idle) (simp_all add: b)
  then show ?thesis by (simp add: b)
qed

section \<open>Facts about the frame router\<close>

text \<open>
  C6 (as amended). A non-empty frame whose tag matches a log that is not open and cannot
  be created is not displayed: the only signal is the announcement of the file, the error
  is reported in a message box, and nothing is written to either log. Every other
  non-empty frame, matched or not, is displayed as the last signal of the call, whatever
  the writes to the log return. The statement holds in every state, so also in the one
  after a failure: the frames that follow are processed as usual.
\<close>

theorem processFrame_display:
  assumes "frame \<noteq> []"
  shows "(if (ba_startsWith frame (toUtf8 ''6026'') \<and> \<not> f_isOpen (m_payloadCsv st)
              \<and> \<not> csvOpens e (createCsvCalls st))
           \<or> (\<not> ba_startsWith frame (toUtf8 ''6026'') \<and> ba_startsWith frame (toUtf8 ''1026'')
              \<and> \<not> f_isOpen (m_containerCsv st) \<and> \<not> csvOpens e (createCsvCalls st))
         then emitted (processFrame e st frame)
                = emitted st @ [PrintLn (''[INFO]'' @ [CHR 0x09] @ ''Creating new CSV file at ''
                                        @ csvPath e (createCsvCalls st))]
            \<and> length (messageBoxes (processFrame e st frame)) = Suc (length (messageBoxes st))
            \<and> snd (last (messageBoxes (processFrame e st frame))) = csvErrorString e
            \<and> f_written (m_payloadCsv (processFrame e st frame)) = f_written (m_payloadCsv st)
            \<and> f_written (m_containerCsv (processFrame e st frame)) = f_written (m_containerCsv st)
         else last (emitted (processFrame e st frame)) = PrintLn (''  [RX]'' @ [CHR 0x09] @ frame)
            \<and> messageBoxes (processFrame e st frame) = messageBoxes st)"
  using assms
  by (simp add: processFrame_def Let_def case_prod_beta printLn_def showMessageBox_def
      createCsv_fields fromUtf8_def QFile_write_def)

theorem processFrame_display_witness:
  "''6026,A,B'' \<noteq> []
   \<and> last (emitted (processFrame exampleEnv initial ''6026,A,B''))
       = PrintLn (''  [RX]'' @ [CHR 0x09] @ ''6026,A,B'')
   \<and> messageBoxes (processFrame exampleEnv initial ''6026,A,B'') = []"
proof -
  have h: "''6026,A,B'' \<noteq> []" by simp
  from processFrame_display [OF h, of initial exampleEnv] h show ?thesis
    by (simp add: initial_def exampleEnv_def closedFile_def)
qed

text \<open>
  The claim as stated fails: when the payload log cannot be created, the frame
  \<open>6026,A,B\<close> is not displayed.
\<close>

theorem processFrame_display_counterexample:
  "emitted (processFrame failingEnv initial ''6026,A,B'')
     = [PrintLn (''[INFO]'' @ [CHR 0x09] @ ''Creating new CSV file at Documents/CanSat/log.csv'')]
   \<and> PrintLn (''  [RX]'' @ [CHR 0x09] @ ''6026,A,B'')
       \<notin> set (emitted (processFrame failingEnv initial ''6026,A,B''))"
  by (simp add: processFrame_def Let_def case_prod_beta printLn_def showMessageBox_def
      createCsv_fields fromUtf8_def toUtf8_def ba_startsWith_def initial_def closedFile_def
      failingEnv_def exampleEnv_def)

section \<open>Facts about the simulation feeder\<close>

lemma sendData_fields:
  "m_simulationEnabled (snd (sendData e st d)) = m_simulationEnabled st"
  "m_simulationActivated (snd (sendData e st d)) = m_simulationActivated st"
  "isConnected (snd (sendData e st d)) = isConnected st"
  "singleShots (snd (sendData e st d)) = singleShots st"
  "m_row (snd (sendData e st d)) = m_row st"
  "m_csvData (snd (sendData e st d)) = m_csvData st"
  "pluginWritten (snd (sendData e st d))
     = (if d \<noteq> [] \<and> isConnected st then pluginWritten st @ [apiFrame d] else pluginWritten st)"
  by (simp_all add: sendData_def Plugin_write_def printLn_def)

lemma processFrame_feeder:
  "m_simulationEnabled (processFrame e st f) = m_simulationEnabled st"
  "m_simulationActivated (processFrame e st f) = m_simulationActivated st"
  "isConnected (processFrame e st f) = isConnected st"
  "singleShots (processFrame e st f) = singleShots st"
  "pluginWritten (processFrame e st f) = pluginWritten st"
  by (simp_all add: processFrame_def Let_def case_prod_beta printLn_def showMessageBox_def
      createCsv_def)

lemma loop_feeder:
  "m_simulationEnabled (fst (onDataReceived_loop e st c b)) = m_simulationEnabled st
   \<and> m_simulationActivated (fst (onDataReceived_loop e st c b)) = m_simulationActivated st
   \<and> isConnected (fst (onDataReceived_loop e st c b)) = isConnected st
   \<and> singleShots (fst (onDataReceived_loop e st c b)) = singleShots st
   \<and> pluginWritten (fst (onDataReceived_loop e st c b)) = pluginWritten st"
proof (induction e st c b rule: onDataReceived_loop.induct)
  case (1 e st cursor bytes)
  show ?case
  proof (cases "ba_contains cursor start \<and> ba_contains cursor finish")
    case True
    from "1.IH" [OF True refl refl refl refl refl refl refl refl] True
    show ?thesis
      by (subst (1 2 3 4 5) onDataReceived_loop.simps) (simp add: Let_def processFrame_feeder)
  next
    case False
    then show ?thesis by (simp add: loop_idle)
  qed
qed

lemma onDataReceived_feeder:
  "m_simulationEnabled (onDataReceived e st d) = m_simulationEnabled st"
  "m_simulationActivated (onDataReceived e st d) = m_simulationActivated st"
  "isConnected (onDataReceived e st d) = isConnected st"
  "singleShots (onDataReceived e st d) = singleShots st"
  "pluginWritten (onDataReceived e st d) = pluginWritten st"
  using loop_feeder [of e "st\<lparr>m_dataBuffer := m_dataBuffer st @ d\<rparr>" "m_dataBuffer st @ d" 0]
  by (simp_all add: onDataReceived_def onDataReceived_parse_def Let_def case_prod_beta)

lemma apiFrame_data: "drop 18 (apiFrame d) = d @ [last (apiFrame d)]"
  by (simp add: apiFrame_def Let_def toUtf8_def ba_replace_def)

lemma not_row_frames:
  "\<not> isRowFrame (apiFrame (''CMD,1026,ST,'' @ t @ '';''))"
  "\<not> isRowFrame (apiFrame ''CMD,1026,SIM,ENABLE;'')"
  "\<not> isRowFrame (apiFrame ''CMD,1026,SIM,DISABLE;'')"
  "\<not> isRowFrame (apiFrame ''CMD,1026,SIM,ACTIVATE;'')"
  "\<not> isRowFrame (apiFrame ''CMD,1026,CX,ON;'')"
  "\<not> isRowFrame (apiFrame ''CMD,1026,CX,OFF;'')"
  by (simp_all add: isRowFrame_def apiFrame_data)

lemma setSimulationMode_fields:
  "m_simulationActivated (setSimulationMode e st b) = (\<not> isConnected st \<and> m_simulationActivated st)"
  "m_simulationEnabled (setSimulationMode e st b) = (if isConnected st then b else m_simulationEnabled st)"
  "isConnected (setSimulationMode e st b) = isConnected st"
  "singleShots (setSimulationMode e st b) = singleShots st"
  "m_row (setSimulationMode e st b) = m_row st"
  "m_csvData (setSimulationMode e st b) = m_csvData st"
  "pluginWritten (setSimulationMode e st b)
     = (if isConnected st
        then pluginWritten st @ [apiFrame (if b then ''CMD,1026,SIM,ENABLE;'' else ''CMD,1026,SIM,DISABLE;'')]
        else pluginWritten st)"
  by (simp_all add: setSimulationMode_def Let_def sendData_fields emit_def simulationEnabled_def)

lemma setSimulationActivated_False_eq:
  "setSimulationActivated e st False
     = (if isConnected st \<and> simulationEnabled st then setSimulationMode e st False else st)"
  by (simp add: setSimulationActivated_def)

lemma setSimulationActivated_inv:
  "m_simulationActivated st \<longrightarrow> m_simulationEnabled st \<Longrightarrow>
   m_simulationActivated (setSimulationActivated e st b)
     \<longrightarrow> m_simulationEnabled (setSimulationActivated e st b)"
  by (cases b)
     (simp_all add: setSimulationActivated_def Let_def sendData_fields emit_def printLn_def
        singleShot_def simulationEnabled_def setSimulationMode_fields)

lemma openCsv_flags:
  "m_simulationActivated (openCsv e st d)
     = (m_simulationActivated st
        \<and> \<not> (dlgName d \<noteq> [] \<and> fileOpens d \<and> isConnected st \<and> m_simulationEnabled st))"
  "m_simulationEnabled (openCsv e st d)
     = (m_simulationEnabled st
        \<and> \<not> (dlgName d \<noteq> [] \<and> fileOpens d \<and> isConnected st \<and> m_simulationActivated st))"
  "isConnected (openCsv e st d) = isConnected st"
  "singleShots (openCsv e st d) = singleShots st"
  by (auto simp add: openCsv_def Let_def emit_def printLn_def showMessageBox_def
      setSimulationActivated_False_eq setSimulationMode_fields simulationActivated_def
      simulationEnabled_def)

lemma updateContainerTime_fields:
  "m_simulationActivated (updateContainerTime e st t) = m_simulationActivated st"
  "m_simulationEnabled (updateContainerTime e st t) = m_simulationEnabled st"
  "isConnected (updateContainerTime e st t) = isConnected st"
  "singleShots (updateContainerTime e st t) = singleShots st"
  "pluginWritten (updateContainerTime e st t)
     = (if isConnected st then pluginWritten st @ [apiFrame (''CMD,1026,ST,'' @ t @ '';'')]
        else pluginWritten st)"
  by (simp_all add: updateContainerTime_def sendData_fields)

lemma setContainerTelemetryEnabled_fields:
  "m_simulationActivated (setContainerTelemetryEnabled e st b) = m_simulationActivated st"
  "m_simulationEnabled (setContainerTelemetryEnabled e st b) = m_simulationEnabled st"
  "isConnected (setContainerTelemetryEnabled e st b) = isConnected st"
  "singleShots (setContainerTelemetryEnabled e st b) = singleShots st"
  "pluginWritten (setContainerTelemetryEnabled e st b)
     = (if isConnected st
        then pluginWritten st @ [apiFrame (if b then ''CMD,1026,CX,ON;'' else ''CMD,1026,CX,OFF;'')]
        else pluginWritten st)"
  by (simp_all add: setContainerTelemetryEnabled_def Let_def sendData_fields emit_def)

lemma updateCurrentTime_fields:
  "m_simulationActivated (updateCurrentTime st t) = m_simulationActivated st"
  "m_simulationEnabled (updateCurrentTime st t) = m_simulationEnabled st"
  "isConnected (updateCurrentTime st t) = isConnected st"
  "singleShots (updateCurrentTime st t) = singleShots st"
  "pluginWritten (updateCurrentTime st t) = pluginWritten st"
  by (simp_all add: updateCurrentTime_def emit_def)

lemma sendSimulatedData_inv:
  assumes "sendSimulatedData e st = Some st'"
    and "m_simulationActivated st \<longrightarrow> m_simulationEnabled st"
  shows "m_simulationActivated st' \<longrightarrow> m_simulationEnabled st'"
  using assms
  by (auto simp add: sendSimulatedData_def Let_def sendData_fields singleShot_def
      showMessageBox_def setSimulationActivated_False_eq setSimulationMode_fields
      split: if_splits list.splits)

lemma handle_inv:
  assumes "handle e st ev = Some st'"
    and "m_simulationActivated st \<longrightarrow> m_simulationEnabled st"
  shows "m_simulationActivated st' \<longrightarrow> m_simulationEnabled st'"
proof (cases ev)
  case (OpenCsv d)
  with assms show ?thesis by (auto simp add: openCsv_flags)
next
  case (UpdateContainerTime t)
  with assms show ?thesis by (auto simp add: updateContainerTime_fields)
next
  case (SetSimulationMode b)
  with assms show ?thesis by (auto simp add: setSimulationMode_fields)
next
  case (SetSimulationActivated b)
  with assms setSimulationActivated_inv [of st e b] show ?thesis by auto
next
  case (SetContainerTelemetryEnabled b)
  with assms show ?thesis by (auto simp add: setContainerTelemetryEnabled_fields)
next
  case (UpdateCurrentTime t)
  with assms show ?thesis by (auto simp add: updateCurrentTime_fields)
next
  case (DataReceived d)
  with assms show ?thesis by (auto simp add: onDataReceived_feeder)
next
  case (Timeout i)
  show ?thesis
  proof (cases "i < length (singleShots st)")
    case True
    with assms Timeout
    sendSimulatedData_inv [of e "st\<lparr>singleShots := take i (singleShots st) @ drop (Suc i) (singleShots st)\<rparr>" st']
    show ?thesis by simp
  next
    case False
    with assms Timeout show ?thesis by simp
  qed
next
  case (ConnectedChanged b)
  with assms show ?thesis by auto
qed

lemma run_inv:
  assumes "run e st evs = Some st'"
    and "m_simulationActivated st \<longrightarrow> m_simulationEnabled st"
  shows "m_simulationActivated st' \<longrightarrow> m_simulationEnabled st'"
  using assms
proof (induction evs arbitrary: st)
  case Nil
  then show ?case by simp
next
  case (Cons ev evs)
  from Cons.prems(1) obtain st1 where h: "handle e st ev = Some st1" and r: "run e st1 evs = Some st'"
    by (auto split: option.splits)
  from handle_inv [OF h Cons.prems(2)] have "m_simulationActivated st1 \<longrightarrow> m_simulationEnabled st1" .
  with r show ?case by (rule Cons.IH)
qed

lemma openCsv_rows:
  "filter isRowFrame (pluginWritten (openCsv e st d)) = filter isRowFrame (pluginWritten st)"
  by (simp add: openCsv_def Let_def emit_def printLn_def showMessageBox_def
      setSimulationActivated_False_eq setSimulationMode_fields simulationActivated_def
      simulationEnabled_def not_row_frames)

lemma handle_quiet:
  assumes "singleShots st = []" and "ev \<noteq> SetSimulationActivated True"
  shows "\<exists>st'. handle e st ev = Some st' \<and> singleShots st' = []
           \<and> filter isRowFrame (pluginWritten st') = filter isRowFrame (pluginWritten st)"
proof (cases ev)
  case (OpenCsv d)
  with assms show ?thesis by (simp add: openCsv_flags openCsv_rows)
next
  case (UpdateContainerTime t)
  with assms show ?thesis
    by (simp add: updateContainerTime_fields not_row_frames(1) [simplified])
next
  case (SetSimulationMode b)
  with assms show ?thesis by (simp add: setSimulationMode_fields not_row_frames)
next
  case (SetSimulationActivated b)
  with assms have "b = False" by simp
  with assms SetSimulationActivated show ?thesis
    by (simp add: setSimulationActivated_False_eq setSimulationMode_fields not_row_frames)
next
  case (SetContainerTelemetryEnabled b)
  with assms show ?thesis by (simp add: setContainerTelemetryEnabled_fields not_row_frames)
next
  case (UpdateCurrentTime t)
  with assms show ?thesis by (simp add: updateCurrentTime_fields)
next
  case (DataReceived d)
  with assms show ?thesis by (simp add: onDataReceived_feeder)
next
  case (Timeout i)
  with assms show ?thesis by simp
next
  case (ConnectedChanged b)
  with assms show ?thesis by simp
qed

lemma run_quiet:
  assumes "singleShots st = []" and "SetSimulationActivated True \<notin> set evs"
  shows "\<exists>st'. run e st evs = Some st' \<and> singleShots st' = []
           \<and> filter isRowFrame (pluginWritten st') = filter isRowFrame (pluginWritten st)"
  using assms
proof (induction evs arbitrary: st)
  case Nil
  then show ?case by simp
next
  case (Cons ev evs)
  from Cons.prems have "ev \<noteq> SetSimulationActivated True" by auto
  from handle_quiet [OF Cons.prems(1) this, of e]
  obtain st1 where h: "handle e st ev = Some st1" and s: "singleShots st1 = []"
    and w: "filter isRowFrame (pluginWritten st1) = filter isRowFrame (pluginWritten st)"
    by blast
  from Cons.prems have "SetSimulationActivated True \<notin> set evs" by simp
  from Cons.IH [OF s this] h w show ?case by simp
qed

lemmas example_defs =
  activation_def reactivation_def stateAfter_def initial_def exampleEnv_def exampleCsv_def closedFile_def
  openCsv_def updateContainerTime_def updateCurrentTime_def setSimulationMode_def
  setSimulationActivated_def setContainerTelemetryEnabled_def sendSimulatedData_def
  sendData_def Plugin_write_def printLn_def emit_def singleShot_def showMessageBox_def
  Let_def simulationEnabled_def simulationActivated_def csvFileName_def
  simulationCsvLoaded_def fileInfo_fileName_def ba_startsWith_def toUtf8_def QFile_write_def

text \<open>
  C7. The code at the input where the claim fails: connected, simulation mode enabled, no
  CSV file ever loaded. \<open>setSimulationActivated(true)\<close> is not rejected, because
  \<open>csvFileName()\<close> is \<open>No CSV file selected\<close> then, which is not empty: the feeder
  becomes active, the activation command is sent and the first tick is scheduled.
\<close>

theorem activation_without_csv:
  "run exampleEnv initial
     [ConnectedChanged True, SetSimulationMode True, SetSimulationActivated True] \<noteq> None
   \<and> \<not> simulationCsvLoaded (stateAfter
        [ConnectedChanged True, SetSimulationMode True, SetSimulationActivated True])
   \<and> m_csvData (stateAfter
        [ConnectedChanged True, SetSimulationMode True, SetSimulationActivated True]) = []
   \<and> simulationActivated (stateAfter
        [ConnectedChanged True, SetSimulationMode True, SetSimulationActivated True])
   \<and> pluginWritten (stateAfter
        [ConnectedChanged True, SetSimulationMode True, SetSimulationActivated True])
       = [apiFrame ''CMD,1026,SIM,ENABLE;'', apiFrame ''CMD,1026,SIM,ACTIVATE;'']
   \<and> singleShots (stateAfter
        [ConnectedChanged True, SetSimulationMode True, SetSimulationActivated True]) = [5000]"
  by (simp add: example_defs)

text \<open>
  C8 (as amended). When a tick finds the cursor outside the dataset while the feeder is
  active and connected, and likewise on \<open>setSimulationActivated(false)\<close> while connected
  and enabled, both flags are cleared: the feeder is disabled, not idle. The command sent
  is \<open>CMD,1026,SIM,DISABLE;\<close>, and the tick schedules no further tick.
\<close>

theorem end_of_dataset:
  "(isConnected st \<and> simulationActivated st
      \<and> \<not> (m_row st < int (length (m_csvData st)) \<and> m_row st \<ge> 0)
     \<longrightarrow> (\<exists>st'. sendSimulatedData e st = Some st'
            \<and> \<not> m_simulationActivated st' \<and> \<not> m_simulationEnabled st'
            \<and> pluginWritten st' = pluginWritten st @ [apiFrame ''CMD,1026,SIM,DISABLE;'']
            \<and> singleShots st' = singleShots st))
   \<and> (isConnected st \<and> simulationEnabled st
     \<longrightarrow> \<not> m_simulationActivated (setSimulationActivated e st False)
        \<and> \<not> m_simulationEnabled (setSimulationActivated e st False)
        \<and> pluginWritten (setSimulationActivated e st False)
            = pluginWritten st @ [apiFrame ''CMD,1026,SIM,DISABLE;''])"
  by (simp add: sendSimulatedData_def showMessageBox_def setSimulationActivated_False_eq
      setSimulationMode_fields simulationActivated_def simulationEnabled_def)

theorem end_of_dataset_witness:
  "isConnected (stateAfter (activation @ [Timeout 0]))
   \<and> simulationActivated (stateAfter (activation @ [Timeout 0]))
   \<and> simulationEnabled (stateAfter (activation @ [Timeout 0]))
   \<and> \<not> (m_row (stateAfter (activation @ [Timeout 0]))
          < int (length (m_csvData (stateAfter (activation @ [Timeout 0]))))
        \<and> m_row (stateAfter (activation @ [Timeout 0])) \<ge> 0)
   \<and> (\<exists>st'. sendSimulatedData exampleEnv (stateAfter (activation @ [Timeout 0])) = Some st'
          \<and> \<not> m_simulationActivated st' \<and> \<not> m_simulationEnabled st')
   \<and> \<not> m_simulationEnabled
        (setSimulationActivated exampleEnv (stateAfter (activation @ [Timeout 0])) False)"
proof -
  let ?S = "stateAfter (activation @ [Timeout 0])"
  have h: "isConnected ?S" "simulationActivated ?S" "simulationEnabled ?S"
    "\<not> (m_row ?S < int (length (m_csvData ?S)) \<and> m_row ?S \<ge> 0)"
    by (simp_all add: example_defs)
  from end_of_dataset [of ?S exampleEnv] h show ?thesis by blast
qed

text \<open>
  The claim as stated fails: after the tick that finds the end of the dataset, simulation
  mode is no longer enabled.
\<close>

theorem end_of_dataset_counterexample:
  "run exampleEnv initial (activation @ [Timeout 0, Timeout 0]) \<noteq> None
   \<and> simulationActivated (stateAfter (activation @ [Timeout 0]))
   \<and> m_row (stateAfter (activation @ [Timeout 0])) = 2
   \<and> length (m_csvData (stateAfter (activation @ [Timeout 0]))) = 2
   \<and> \<not> simulationEnabled (stateAfter (activation @ [Timeout 0, Timeout 0]))
   \<and> last (pluginWritten (stateAfter (activation @ [Timeout 0, Timeout 0])))
       = apiFrame ''CMD,1026,SIM,DISABLE;''"
  by (simp add: example_defs)

text \<open>
  C9 (as amended). In every state reachable from the constructor, the activated flag
  implies the enabled flag, for the members as for the accessors. A call of
  \<open>setSimulationMode\<close> while connected clears the activated flag and sets the enabled
  flag to its argument; a call while not connected changes nothing.
\<close>

theorem activated_implies_enabled:
  assumes "run e initial evs = Some st"
  shows "(simulationActivated st \<longrightarrow> simulationEnabled st)
       \<and> (m_simulationActivated st \<longrightarrow> m_simulationEnabled st)
       \<and> (if isConnected st
          then \<not> m_simulationActivated (setSimulationMode e st b)
             \<and> m_simulationEnabled (setSimulationMode e st b) = b
          else setSimulationMode e st b = st)"
proof -
  have "m_simulationActivated initial \<longrightarrow> m_simulationEnabled initial"
    by (simp add: initial_def)
  with assms have "m_simulationActivated st \<longrightarrow> m_simulationEnabled st"
    by (rule run_inv)
  then show ?thesis
    by (simp add: simulationActivated_def simulationEnabled_def setSimulationMode_fields)
       (simp add: setSimulationMode_def)
qed

theorem activated_implies_enabled_witness:
  "run exampleEnv initial activation = Some (stateAfter activation)
   \<and> simulationActivated (stateAfter activation)
   \<and> simulationEnabled (stateAfter activation)
   \<and> isConnected (stateAfter activation)
   \<and> \<not> m_simulationActivated (setSimulationMode exampleEnv (stateAfter activation) True)
   \<and> m_simulationEnabled (setSimulationMode exampleEnv (stateAfter activation) True)"
proof -
  have r: "run exampleEnv initial activation = Some (stateAfter activation)"
    by (simp add: example_defs)
  have a: "simulationActivated (stateAfter activation)"
    and c: "isConnected (stateAfter activation)"
    by (simp_all add: example_defs)
  from activated_implies_enabled [OF r, of True] r a c show ?thesis by simp
qed

text \<open>
  The claim as stated fails: a call of \<open>setSimulationMode\<close> while not connected does not
  clear the activated flag.
\<close>

theorem activated_implies_enabled_counterexample:
  "run exampleEnv initial (activation @ [ConnectedChanged False, SetSimulationMode False])
     \<noteq> None
   \<and> m_simulationActivated (stateAfter (activation @ [ConnectedChanged False]))
   \<and> m_simulationActivated
        (stateAfter (activation @ [ConnectedChanged False, SetSimulationMode False]))"
  by (simp add: example_defs)

text \<open>
  C10 (as amended). A pending tick that fires while the transport is not connected only
  goes away: nothing is sent, the cursor stays, no tick is scheduled. If it was the only
  pending tick, then whatever happens afterwards, reconnection included, no tick is
  pending and no row is sent as long as \<open>setSimulationActivated(true)\<close> is not called again.
\<close>

theorem dead_tick:
  assumes "\<not> isConnected st" and "i < length (singleShots st)"
  shows "handle e st (Timeout i)
           = Some (st\<lparr>singleShots := take i (singleShots st) @ drop (Suc i) (singleShots st)\<rparr>)
       \<and> (length (singleShots st) = 1 \<and> SetSimulationActivated True \<notin> set evs \<longrightarrow>
            (\<exists>st'. run e st (Timeout i # evs) = Some st' \<and> singleShots st' = []
                \<and> filter isRowFrame (pluginWritten st') = filter isRowFrame (pluginWritten st)))"
proof (intro conjI impI)
  let ?st1 = "st\<lparr>singleShots := take i (singleShots st) @ drop (Suc i) (singleShots st)\<rparr>"
  show h: "handle e st (Timeout i) = Some ?st1"
    using assms by (simp add: sendSimulatedData_def)
  assume a: "length (singleShots st) = 1 \<and> SetSimulationActivated True \<notin> set evs"
  with assms(2) have "singleShots ?st1 = []" by simp
  from run_quiet [OF this, of evs e] a h
  show "\<exists>st'. run e st (Timeout i # evs) = Some st' \<and> singleShots st' = []
                \<and> filter isRowFrame (pluginWritten st') = filter isRowFrame (pluginWritten st)"
    by simp
qed

theorem dead_tick_witness:
  "\<not> isConnected (stateAfter (activation @ [ConnectedChanged False]))
   \<and> simulationActivated (stateAfter (activation @ [ConnectedChanged False]))
   \<and> length (singleShots (stateAfter (activation @ [ConnectedChanged False]))) = 1
   \<and> SetSimulationActivated True
        \<notin> set [ConnectedChanged True, Timeout 0, UpdateContainerTime ''12:00:00'']
   \<and> handle exampleEnv (stateAfter (activation @ [ConnectedChanged False])) (Timeout 0)
       = Some ((stateAfter (activation @ [ConnectedChanged False]))\<lparr>singleShots := []\<rparr>)
   \<and> (\<exists>st'. run exampleEnv (stateAfter (activation @ [ConnectedChanged False]))
          (Timeout 0 # [ConnectedChanged True, Timeout 0, UpdateContainerTime ''12:00:00''])
            = Some st'
          \<and> singleShots st' = []
          \<and> filter isRowFrame (pluginWritten st') = [])"
proof -
  let ?S = "stateAfter (activation @ [ConnectedChanged False])"
  have c: "\<not> isConnected ?S" and a: "simulationActivated ?S"
    and s: "singleShots ?S = [5000]"
    and w: "pluginWritten ?S = [apiFrame ''CMD,1026,SIM,ENABLE;'', apiFrame ''CMD,1026,SIM,ACTIVATE;'']"
    by (simp_all add: example_defs)
  from s have i: "0 < length (singleShots ?S)" and l: "length (singleShots ?S) = 1"
    by simp_all
  have n: "SetSimulationActivated True
      \<notin> set [ConnectedChanged True, Timeout 0, UpdateContainerTime ''12:00:00'']"
    by simp
  have t: "take 0 (singleShots ?S) @ drop (Suc 0) (singleShots ?S) = []"
    by (simp add: s)
  have f: "filter isRowFrame (pluginWritten ?S) = []"
    by (simp add: w not_row_frames)
  note d = dead_tick [OF c i, of exampleEnv
      "[ConnectedChanged True, Timeout 0, UpdateContainerTime ''12:00:00'']", unfolded t f]
  from d l n have "\<exists>st'. run exampleEnv ?S
          (Timeout 0 # [ConnectedChanged True, Timeout 0, UpdateContainerTime ''12:00:00''])
            = Some st'
          \<and> singleShots st' = []
          \<and> filter isRowFrame (pluginWritten st') = []"
    by blast
  with d c a l n show ?thesis by blast
qed

text \<open>
  The claim as stated fails when a second tick is pending (simulation activated, switched
  off and activated again before the first tick): after the tick that fired while
  disconnected, a reconnection and the other tick send the next row and schedule a further
  tick, with no action of the operator.
\<close>

theorem dead_tick_counterexample:
  "run exampleEnv initial (reactivation @ [Timeout 0, ConnectedChanged True, Timeout 0]) \<noteq> None
   \<and> simulationActivated (stateAfter reactivation)
   \<and> \<not> isConnected (stateAfter reactivation)
   \<and> singleShots (stateAfter reactivation) = [5000, 5000]
   \<and> m_row (stateAfter (reactivation @ [Timeout 0])) = 1
   \<and> pluginWritten (stateAfter (reactivation @ [Timeout 0]))
       = pluginWritten (stateAfter reactivation)
   \<and> singleShots (stateAfter (reactivation @ [Timeout 0])) = [5000]
   \<and> m_row (stateAfter (reactivation @ [Timeout 0, ConnectedChanged True, Timeout 0])) = 2
   \<and> last (pluginWritten
        (stateAfter (reactivation @ [Timeout 0, ConnectedChanged True, Timeout 0])))
       = apiFrame ''CMD,1026,SIMP,30.2;''
   \<and> singleShots (stateAfter (reactivation @ [Timeout 0, ConnectedChanged True, Timeout 0]))
       = [1000]"
  by (simp add: example_defs)

end
